theory Spec2Isabelle
  imports Main "HOL-Library.Word"
begin

section \<open>Data model\<close>

text \<open>
  \<^verbatim>\<open>boost::system::error_code\<close> is modelled by its value; \<^verbatim>\<open>if (ec)\<close> tests
  that the value is not zero, and \<^verbatim>\<open>error_code{}\<close> is the value zero.
\<close>

type_synonym error_code = int

text \<open>
  A buffer (\<^verbatim>\<open>net::mutable_buffer\<close>, \<^verbatim>\<open>net::const_buffer\<close>) is a pointer and a
  size; a buffer sequence is a list of buffers, and \<^verbatim>\<open>net::buffer_size\<close> is its
  total capacity.
\<close>

record buffer =
  buffer_data :: nat
  buffer_len :: nat

definition buffer_size :: "buffer list \<Rightarrow> nat" where
  "buffer_size bs = sum_list (map buffer_len bs)"

datatype handshake_type = client | server

text \<open>
  \<^verbatim>\<open>sspi_handshake::state\<close>: the four statuses that the \<^verbatim>\<open>switch\<close> of
  \<^verbatim>\<open>stream::handshake\<close> and the tests of \<^verbatim>\<open>async_handshake\<close> go through.

  Modelled from the spec: \<^verbatim>\<open>sspi_decrypt::state\<close> is declared in
  \<^verbatim>\<open>detail/sspi_decrypt.hpp\<close>, which is not among the sources; the specification
  gives the step function of every driver a status from the set data_needed,
  data_available, done, error, so the decrypt driver reports values of the same type.
  \<^verbatim>\<open>stream::read_some\<close> tests it for \<^verbatim>\<open>data_needed\<close> and \<^verbatim>\<open>error\<close> only.
\<close>

datatype state = data_needed | data_available | "done" | error

text \<open>
  Every call that leaves the orchestrators of \<^verbatim>\<open>stream.hpp\<close> and
  \<^verbatim>\<open>async_handshake.hpp\<close> is recorded, in program order, with its arguments
  and what it returned. \<open>Net_write\<close> is \<^verbatim>\<open>net::write(next_layer_, buffers, ec)\<close>,
  the write-all operation of Asio; \<open>Next_layer_read_some\<close> is
  \<^verbatim>\<open>next_layer_.read_some(buffer, ec)\<close>.
\<close>

datatype call =
    Handshake_init handshake_type
  | Handshake_step state
  | Handshake_size_read nat
  | Handshake_size_written nat
  | Handshake_manual_auth
  | Decrypt_step "buffer list" state
  | Decrypt_size_read nat
  | Encrypt_step "buffer list" nat error_code
  | Shutdown_step error_code
  | Shutdown_size_written nat
  | Next_layer_read_some "buffer list" nat error_code
  | Net_write "buffer list" nat error_code
  | Next_layer_async_read_some "buffer list"
  | Net_async_write "buffer list"
  | Net_post error_code nat
  | Complete error_code

fun is_transport_io :: "call \<Rightarrow> bool" where
  "is_transport_io (Next_layer_read_some _ _ _) = True"
| "is_transport_io (Net_write _ _ _) = True"
| "is_transport_io (Next_layer_async_read_some _) = True"
| "is_transport_io (Net_async_write _) = True"
| "is_transport_io _ = False"

fun is_encrypt_step :: "call \<Rightarrow> bool" where
  "is_encrypt_step (Encrypt_step _ _ _) = True"
| "is_encrypt_step _ = False"

fun is_complete :: "call \<Rightarrow> bool" where
  "is_complete (Complete _) = True"
| "is_complete _ = False"

fun is_post :: "call \<Rightarrow> bool" where
  "is_post (Net_post _ _) = True"
| "is_post _ = False"

subsection \<open>The collaborators of the stream\<close>

text \<open>
  The next layer, the four SSPI drivers and the memory their buffers point into are
  one state \<open>'w\<close>. The operations on it that the orchestrators call are parameters:
  the transport is a template parameter of \<^verbatim>\<open>stream\<close>, and the drivers
  (\<^verbatim>\<open>detail/sspi_handshake.hpp\<close>, \<^verbatim>\<open>sspi_encrypt.hpp\<close>, \<^verbatim>\<open>sspi_decrypt.hpp\<close>,
  \<^verbatim>\<open>sspi_shutdown.hpp\<close>) are used through the member functions below. An operation
  that takes \<^verbatim>\<open>error_code&\<close> returns the code it leaves there.
\<close>

record 'w next_layer =
  next_layer_read_some :: "buffer list \<Rightarrow> 'w \<Rightarrow> nat \<times> error_code \<times> 'w"
  net_write :: "buffer list \<Rightarrow> 'w \<Rightarrow> nat \<times> error_code \<times> 'w"
  next_layer_async_read_some :: "buffer list \<Rightarrow> 'w \<Rightarrow> error_code \<times> nat \<times> 'w"
  net_async_write :: "buffer list \<Rightarrow> 'w \<Rightarrow> error_code \<times> nat \<times> 'w"

record 'w sspi_handshake =
  handshake_init :: "handshake_type \<Rightarrow> 'w \<Rightarrow> 'w"
  handshake_step :: "'w \<Rightarrow> state \<times> 'w"
  in_buffer :: "'w \<Rightarrow> buffer list"
  out_buffer :: "'w \<Rightarrow> buffer list"
  handshake_size_read :: "nat \<Rightarrow> 'w \<Rightarrow> 'w"
  handshake_size_written :: "nat \<Rightarrow> 'w \<Rightarrow> 'w"
  handshake_last_error :: "'w \<Rightarrow> error_code"
  manual_auth :: "'w \<Rightarrow> 'w"

record 'w sspi_decrypt =
  decrypt_step :: "buffer list \<Rightarrow> 'w \<Rightarrow> state \<times> 'w"
  input_buffer :: "'w \<Rightarrow> buffer list"
  decrypt_size_read :: "nat \<Rightarrow> 'w \<Rightarrow> 'w"
  decrypt_last_error :: "'w \<Rightarrow> error_code"
  size_decrypted :: "'w \<Rightarrow> nat"

record 'w sspi_encrypt =
  encrypt_step :: "buffer list \<Rightarrow> error_code \<Rightarrow> 'w \<Rightarrow> nat \<times> error_code \<times> 'w"
  encrypt_buffers :: "'w \<Rightarrow> buffer list"

record 'w sspi_shutdown =
  shutdown_step :: "'w \<Rightarrow> error_code \<times> 'w"
  shutdown_buffer :: "'w \<Rightarrow> buffer list"
  shutdown_size_written :: "nat \<Rightarrow> 'w \<Rightarrow> 'w"

text \<open>
  The postcondition Asio documents for \<^verbatim>\<open>net::write\<close>: when it reports no error,
  every byte of the buffer sequence has been written.
\<close>

definition writes_all :: "'w next_layer \<Rightarrow> bool" where
  "writes_all nl \<longleftrightarrow>
     (\<forall>bs w n ec w'. net_write nl bs w = (n, ec, w') \<longrightarrow> ec = 0 \<longrightarrow> n = buffer_size bs)"

section \<open>\<^verbatim>\<open>detail/decrypt_buffers.hpp\<close>\<close>

text \<open>
  The buffer types \<^verbatim>\<open>SECBUFFER_EMPTY\<close> and \<^verbatim>\<open>SECBUFFER_DATA\<close> are macros of the
  Windows header \<^verbatim>\<open>sspi.h\<close>, with the values 0 and 1.
\<close>

definition SECBUFFER_EMPTY :: "32 word" where
  "SECBUFFER_EMPTY = 0"

definition SECBUFFER_DATA :: "32 word" where
  "SECBUFFER_DATA = 1"

text \<open>
  \<^verbatim>\<open>sspi_buffer\<close> and \<^verbatim>\<open>sspi_buffer_sequence\<close> are declared in
  \<^verbatim>\<open>detail/sspi_buffer_sequence.hpp\<close>, which is not among the sources. The
  constructor of \<^verbatim>\<open>decrypt_buffers\<close> converts each of four buffer types to an
  \<^verbatim>\<open>sspi_buffer\<close> and hands the array to the base class; the conversion is the
  parameter \<open>sspi_buffer\<close> here, and the sequence is the list of its elements.
\<close>

definition decrypt_buffers :: "(32 word \<Rightarrow> 'b) \<Rightarrow> 'b list" where
  "decrypt_buffers sspi_buffer =
     [sspi_buffer SECBUFFER_DATA,
      sspi_buffer SECBUFFER_EMPTY,
      sspi_buffer SECBUFFER_EMPTY,
      sspi_buffer SECBUFFER_EMPTY]"

text \<open>
  The conversion one expects of a wrapper of the SSPI structure \<^verbatim>\<open>SecBuffer\<close> (size,
  type, pointer): the type is stored, and no memory is attached.
\<close>

record SecBuffer =
  cbBuffer :: "32 word"
  BufferType :: "32 word"
  pvBuffer :: nat

definition SecBuffer_of_type :: "32 word \<Rightarrow> SecBuffer" where
  "SecBuffer_of_type t = \<lparr>cbBuffer = 0, BufferType = t, pvBuffer = 0\<rparr>"

section \<open>The blocking orchestrators of \<^verbatim>\<open>stream.hpp\<close>\<close>

text \<open>
  Each orchestrator takes the collaborators, the value of the caller's \<^verbatim>\<open>ec\<close> on
  entry and the state, and returns what it returns, the value of \<^verbatim>\<open>ec\<close> on exit,
  the state and the calls it made.
\<close>

subsection \<open>\<^verbatim>\<open>stream::shutdown(ec)\<close>\<close>

definition shutdown ::
  "'w next_layer \<Rightarrow> 'w sspi_shutdown \<Rightarrow> error_code \<Rightarrow> 'w \<Rightarrow> error_code \<times> 'w \<times> call list" where
  "shutdown nl sd ec w =
     (case shutdown_step sd w of
        (ec1, w1) \<Rightarrow>
          if ec1 \<noteq> 0 then (ec1, w1, [Shutdown_step ec1])
          else
            (case net_write nl (shutdown_buffer sd w1) w1 of
               (size_written, ec2, w2) \<Rightarrow>
                 if ec2 = 0
                 then (ec2, shutdown_size_written sd size_written w2,
                       [Shutdown_step ec1,
                        Net_write (shutdown_buffer sd w1) size_written ec2,
                        Shutdown_size_written size_written])
                 else (ec2, w2,
                       [Shutdown_step ec1,
                        Net_write (shutdown_buffer sd w1) size_written ec2])))"

subsection \<open>\<^verbatim>\<open>stream::write_some(buffers, ec)\<close>\<close>

definition write_some ::
  "'w next_layer \<Rightarrow> 'w sspi_encrypt \<Rightarrow> buffer list \<Rightarrow> error_code \<Rightarrow> 'w
     \<Rightarrow> nat \<times> error_code \<times> 'w \<times> call list" where
  "write_some nl en buffers ec w =
     (case encrypt_step en buffers ec w of
        (bytes_consumed, ec1, w1) \<Rightarrow>
          if ec1 \<noteq> 0 then (0, ec1, w1, [Encrypt_step buffers bytes_consumed ec1])
          else
            (case net_write nl (encrypt_buffers en w1) w1 of
               (n, ec2, w2) \<Rightarrow>
                 if ec2 \<noteq> 0
                 then (0, ec2, w2,
                       [Encrypt_step buffers bytes_consumed ec1,
                        Net_write (encrypt_buffers en w1) n ec2])
                 else (bytes_consumed, ec2, w2,
                       [Encrypt_step buffers bytes_consumed ec1,
                        Net_write (encrypt_buffers en w1) n ec2])))"

subsection \<open>\<^verbatim>\<open>stream::read_some(buffers, ec)\<close>\<close>

text \<open>
  The \<^verbatim>\<open>while\<close> loop runs as long as the decrypt driver reports \<^verbatim>\<open>data_needed\<close>
  and the transport delivers, which the collaborators may do for ever: the model
  takes the number of driver steps it may make and is \<open>None\<close> when they are used up.
\<close>

fun read_some ::
  "nat \<Rightarrow> 'w next_layer \<Rightarrow> 'w sspi_decrypt \<Rightarrow> buffer list \<Rightarrow> error_code \<Rightarrow> 'w
     \<Rightarrow> (nat \<times> error_code \<times> 'w \<times> call list) option" where
  "read_some 0 nl de buffers ec w = None"
| "read_some (Suc fuel) nl de buffers ec w =
     (case decrypt_step de buffers w of
        (st, w1) \<Rightarrow>
          if st = data_needed then
            (case next_layer_read_some nl (input_buffer de w1) w1 of
               (size_read, ec1, w2) \<Rightarrow>
                 if ec1 \<noteq> 0
                 then Some (0, ec1, w2,
                            [Decrypt_step buffers st,
                             Next_layer_read_some (input_buffer de w1) size_read ec1])
                 else
                   map_option
                     (\<lambda>(r, ec', w', calls).
                        (r, ec', w',
                         Decrypt_step buffers st
                         # Next_layer_read_some (input_buffer de w1) size_read ec1
                         # Decrypt_size_read size_read # calls))
                     (read_some fuel nl de buffers ec1 (decrypt_size_read de size_read w2)))
          else if st = error
          then Some (0, decrypt_last_error de w1, w1, [Decrypt_step buffers st])
          else Some (size_decrypted de w1, ec, w1, [Decrypt_step buffers st]))"

subsection \<open>The throwing variants \<^verbatim>\<open>read_some(buffers)\<close> and \<^verbatim>\<open>write_some(buffers)\<close>\<close>

text \<open>
  How a call of a value-returning function ends: it returns a value, it throws, or
  control reaches the closing brace without a \<^verbatim>\<open>return\<close> statement, and then the
  caller gets no defined value.
\<close>

datatype 'a outcome = Returns 'a | Throws error_code | No_return_value

definition read_some_throwing ::
  "nat \<Rightarrow> 'w next_layer \<Rightarrow> 'w sspi_decrypt \<Rightarrow> buffer list \<Rightarrow> 'w
     \<Rightarrow> (nat outcome \<times> 'w \<times> call list) option" where
  "read_some_throwing fuel nl de buffers w =
     map_option
       (\<lambda>(r, ec, w', calls). (if ec \<noteq> 0 then Throws ec else No_return_value, w', calls))
       (read_some fuel nl de buffers 0 w)"

definition write_some_throwing ::
  "'w next_layer \<Rightarrow> 'w sspi_encrypt \<Rightarrow> buffer list \<Rightarrow> 'w \<Rightarrow> nat outcome \<times> 'w \<times> call list" where
  "write_some_throwing nl en buffers w =
     (case write_some nl en buffers 0 w of
        (r, ec, w', calls) \<Rightarrow> (if ec \<noteq> 0 then Throws ec else No_return_value, w', calls))"

subsection \<open>\<^verbatim>\<open>stream::handshake(type, ec)\<close>\<close>

text \<open>
  The loop of \<^verbatim>\<open>handshake\<close>, entered after \<^verbatim>\<open>handshake_(type)\<close>. The loop condition
  leaves the loop when the driver reports \<^verbatim>\<open>done\<close>, so the \<^verbatim>\<open>case done\<close> of the
  \<^verbatim>\<open>switch\<close> inside it is never reached and \<^verbatim>\<open>ec\<close> is not assigned on that path.
\<close>

fun handshake_loop ::
  "nat \<Rightarrow> 'w next_layer \<Rightarrow> 'w sspi_handshake \<Rightarrow> error_code \<Rightarrow> 'w
     \<Rightarrow> (error_code \<times> 'w \<times> call list) option" where
  "handshake_loop 0 nl hs ec w = None"
| "handshake_loop (Suc fuel) nl hs ec w =
     (case handshake_step hs w of
        (st, w1) \<Rightarrow>
          (case st of
             done \<Rightarrow> Some (ec, w1, [Handshake_step st])
           | data_needed \<Rightarrow>
               (case next_layer_read_some nl (in_buffer hs w1) w1 of
                  (size_read, ec1, w2) \<Rightarrow>
                    if ec1 \<noteq> 0
                    then Some (ec1, w2,
                               [Handshake_step st,
                                Next_layer_read_some (in_buffer hs w1) size_read ec1])
                    else
                      map_option
                        (\<lambda>(ec', w', calls).
                           (ec', w',
                            Handshake_step st
                            # Next_layer_read_some (in_buffer hs w1) size_read ec1
                            # Handshake_size_read size_read # calls))
                        (handshake_loop fuel nl hs ec1 (handshake_size_read hs size_read w2)))
           | data_available \<Rightarrow>
               (case net_write nl (out_buffer hs w1) w1 of
                  (size_written, ec1, w2) \<Rightarrow>
                    if ec1 \<noteq> 0
                    then Some (ec1, w2,
                               [Handshake_step st,
                                Net_write (out_buffer hs w1) size_written ec1])
                    else
                      map_option
                        (\<lambda>(ec', w', calls).
                           (ec', w',
                            Handshake_step st
                            # Net_write (out_buffer hs w1) size_written ec1
                            # Handshake_size_written size_written # calls))
                        (handshake_loop fuel nl hs ec1
                           (handshake_size_written hs size_written w2)))
           | error \<Rightarrow> Some (handshake_last_error hs w1, w1, [Handshake_step st])))"

definition handshake ::
  "nat \<Rightarrow> 'w next_layer \<Rightarrow> 'w sspi_handshake \<Rightarrow> handshake_type \<Rightarrow> error_code \<Rightarrow> 'w
     \<Rightarrow> (error_code \<times> 'w \<times> call list) option" where
  "handshake fuel nl hs type ec w =
     map_option (\<lambda>(ec', w', calls). (ec', w', Handshake_init type # calls))
       (handshake_loop fuel nl hs ec (handshake_init hs type w))"

section \<open>The asynchronous handshake of \<^verbatim>\<open>detail/async_handshake.hpp\<close>\<close>

text \<open>
  \<^verbatim>\<open>async_handshake\<close> is a stackless coroutine (\<^verbatim>\<open>boost::asio::coroutine\<close>): the
  object remembers the \<^verbatim>\<open>BOOST_ASIO_CORO_YIELD\<close> it stopped at, and
  \<^verbatim>\<open>BOOST_ASIO_CORO_REENTER\<close> jumps behind it at the next call of \<^verbatim>\<open>operator()\<close>.
  The three yields are the asynchronous read, the asynchronous write and the post.
\<close>

datatype coroutine = Coro_start | Coro_yield_read | Coro_yield_write | Coro_yield_post | Coro_complete

record async_handshake =
  coro :: coroutine
  entry_count :: int

definition is_continuation :: "async_handshake \<Rightarrow> bool" where
  "is_continuation a \<longleftrightarrow> entry_count a > 1"

text \<open>
  The code behind the \<^verbatim>\<open>while (true)\<close> loop: post \<^verbatim>\<open>self(ec, length)\<close> on the first
  entry, call \<^verbatim>\<open>self.complete(handshake_.last_error())\<close> otherwise.
\<close>

definition async_handshake_finish ::
  "'w sspi_handshake \<Rightarrow> error_code \<Rightarrow> nat \<Rightarrow> async_handshake \<Rightarrow> 'w \<Rightarrow> call list
     \<Rightarrow> async_handshake \<times> 'w \<times> call list" where
  "async_handshake_finish hs ec len a w calls =
     (if \<not> is_continuation a
      then (a\<lparr>coro := Coro_yield_post\<rparr>, w, calls @ [Net_post ec len])
      else (a\<lparr>coro := Coro_complete\<rparr>, w, calls @ [Complete (handshake_last_error hs w)]))"

text \<open>
  One pass of the \<^verbatim>\<open>while (true)\<close> loop from its top. Each of the four statuses
  either yields or breaks, so an entry steps the driver at most once. On \<^verbatim>\<open>done\<close> the
  code first evaluates \<^verbatim>\<open>BOOST_ASSERT(!handshake_.last_error())\<close>: when the driver's
  error is not the no-error value the assertion fails and the program aborts before
  \<^verbatim>\<open>manual_auth\<close>, the post and \<^verbatim>\<open>complete\<close>, and the entry has no result (\<open>None\<close>).
  This is the build with assertions; with \<^verbatim>\<open>NDEBUG\<close> defined the assertion is
  compiled out, which the model does not cover.
\<close>

definition async_handshake_loop ::
  "'w sspi_handshake \<Rightarrow> error_code \<Rightarrow> nat \<Rightarrow> async_handshake \<Rightarrow> 'w \<Rightarrow> call list
     \<Rightarrow> (async_handshake \<times> 'w \<times> call list) option" where
  "async_handshake_loop hs ec len a w calls =
     (case handshake_step hs w of
        (handshake_state, w1) \<Rightarrow>
          (case handshake_state of
             data_needed \<Rightarrow>
               Some (a\<lparr>coro := Coro_yield_read\<rparr>, w1,
                     calls @ [Handshake_step handshake_state,
                              Next_layer_async_read_some (in_buffer hs w1)])
           | data_available \<Rightarrow>
               Some (a\<lparr>coro := Coro_yield_write\<rparr>, w1,
                     calls @ [Handshake_step handshake_state,
                              Net_async_write (out_buffer hs w1)])
           | error \<Rightarrow>
               Some (async_handshake_finish hs ec len a w1
                       (calls @ [Handshake_step handshake_state]))
           | done \<Rightarrow>
               if handshake_last_error hs w1 \<noteq> 0 then None
               else
                 Some (async_handshake_finish hs ec len a (manual_auth hs w1)
                         (calls @ [Handshake_step handshake_state, Handshake_manual_auth]))))"

text \<open>
  \<^verbatim>\<open>operator()(self, ec, length)\<close>. \<^verbatim>\<open>entry_count_\<close> is an \<^verbatim>\<open>int\<close>: incrementing it
  at its largest value is undefined, and the model has no result (\<open>None\<close>) there.
\<close>

definition async_handshake_call ::
  "'w sspi_handshake \<Rightarrow> error_code \<Rightarrow> nat \<Rightarrow> async_handshake \<Rightarrow> 'w
     \<Rightarrow> (async_handshake \<times> 'w \<times> call list) option" where
  "async_handshake_call hs ec len a w =
     (if ec \<noteq> 0 then Some (a, w, [Complete ec])
      else if entry_count a = 2147483647 then None
      else
        (let a1 = a\<lparr>entry_count := entry_count a + 1\<rparr> in
         case coro a of
           Coro_start \<Rightarrow> async_handshake_loop hs ec len a1 w []
         | Coro_yield_read \<Rightarrow>
             async_handshake_loop hs ec len a1 (handshake_size_read hs len w)
               [Handshake_size_read len]
         | Coro_yield_write \<Rightarrow>
             async_handshake_loop hs ec len a1 (handshake_size_written hs len w)
               [Handshake_size_written len]
         | Coro_yield_post \<Rightarrow>
             Some (a1\<lparr>coro := Coro_complete\<rparr>, w, [Complete (handshake_last_error hs w)])
         | Coro_complete \<Rightarrow> Some (a1, w, [])))"

text \<open>
  A run of the operation: after each entry, the operation the entry started last
  decides what calls \<^verbatim>\<open>operator()\<close> next. An asynchronous read or write calls it with
  the result of the transport, the posted function calls it with the \<^verbatim>\<open>ec\<close> and
  \<^verbatim>\<open>length\<close> it captured, and after \<^verbatim>\<open>complete\<close> nothing calls it. The result lists
  the calls of each entry; the run is \<open>None\<close> when an entry has no result or the
  entries allowed are used up.
\<close>

fun async_handshake_run ::
  "nat \<Rightarrow> 'w next_layer \<Rightarrow> 'w sspi_handshake \<Rightarrow> error_code \<Rightarrow> nat \<Rightarrow> async_handshake \<Rightarrow> 'w
     \<Rightarrow> (async_handshake \<times> 'w \<times> call list list) option" where
  "async_handshake_run 0 nl hs ec len a w = None"
| "async_handshake_run (Suc fuel) nl hs ec len a w =
     (case async_handshake_call hs ec len a w of
        None \<Rightarrow> None
      | Some (a1, w1, calls) \<Rightarrow>
          (case rev calls of
             Next_layer_async_read_some b # _ \<Rightarrow>
               (case next_layer_async_read_some nl b w1 of
                  (ec1, n, w2) \<Rightarrow>
                    map_option (\<lambda>(a', w', entries). (a', w', calls # entries))
                      (async_handshake_run fuel nl hs ec1 n a1 w2))
           | Net_async_write b # _ \<Rightarrow>
               (case net_async_write nl b w1 of
                  (ec1, n, w2) \<Rightarrow>
                    map_option (\<lambda>(a', w', entries). (a', w', calls # entries))
                      (async_handshake_run fuel nl hs ec1 n a1 w2))
           | Net_post ec1 n # _ \<Rightarrow>
               map_option (\<lambda>(a', w', entries). (a', w', calls # entries))
                 (async_handshake_run fuel nl hs ec1 n a1 w1)
           | _ \<Rightarrow> Some (a1, w1, [calls])))"

text \<open>
  \<^verbatim>\<open>stream::async_handshake(type, handler)\<close>: the constructor of the operation calls
  \<^verbatim>\<open>handshake_(type)\<close> and sets \<^verbatim>\<open>entry_count_\<close> to 0, and the first call of
  \<^verbatim>\<open>operator()\<close> has the default arguments. The head of the list of entries is the
  initiating call.
\<close>

definition async_handshake_start :: "async_handshake" where
  "async_handshake_start = \<lparr>coro = Coro_start, entry_count = 0\<rparr>"

definition async_handshake_op ::
  "nat \<Rightarrow> 'w next_layer \<Rightarrow> 'w sspi_handshake \<Rightarrow> handshake_type \<Rightarrow> 'w
     \<Rightarrow> (async_handshake \<times> 'w \<times> call list list) option" where
  "async_handshake_op fuel nl hs type w =
     async_handshake_run fuel nl hs 0 0 async_handshake_start (handshake_init hs type w)"

section \<open>The decrypt and handshake drivers, from the specification\<close>

text \<open>
  \<^verbatim>\<open>detail/sspi_decrypt.hpp\<close> and \<^verbatim>\<open>detail/sspi_handshake.hpp\<close> are not among the
  sources. What a property needs to know about these two drivers themselves is taken
  from the specification (sections 4.1, 4.2 and 4.4). The TLS provider beneath the
  engine facade stays a parameter, and the records are extensible, so that the state
  of the transport can sit beside the state of the driver.
\<close>

type_synonym byte = "8 word"

subsection \<open>The decrypt driver\<close>

text \<open>
  Modelled from the spec: the result of the engine facade's \<^verbatim>\<open>decrypt_step\<close>, which
  \<^verbatim>\<open>sspi_decrypt\<close> calls (section 4.1): \<^verbatim>\<open>data_needed\<close>; \<^verbatim>\<open>done\<close> with the plaintext
  of one record and the trailing ciphertext; the terminal status of a received
  close_notify; an error with its code.
\<close>

datatype decrypt_result =
    Engine_data_needed
  | Engine_done "byte list" "byte list"
  | Engine_close_notify
  | Engine_error error_code

text \<open>
  Modelled from the spec: the state of \<^verbatim>\<open>sspi_decrypt\<close> (sections 3 and 4.4): the
  engine's context, the ciphertext received that does not yet form a record, the
  memory of the writable tail exposed to the transport, the plaintext decrypted and
  not yet delivered, what the last step copied to the caller and its count, the
  latched error and the closing phase. \<open>engine_steps\<close> counts the calls of the
  engine's \<^verbatim>\<open>decrypt_step\<close>.
\<close>

record 'c decrypt_driver =
  ctx_state :: 'c
  engine_steps :: nat
  input :: "byte list"
  writable_tail :: "byte list"
  decrypted_remaining :: "byte list"
  delivered :: "byte list"
  size_decrypted_count :: nat
  latched_error :: error_code
  closing :: bool

text \<open>
  Modelled from the spec: one step of \<^verbatim>\<open>sspi_decrypt\<close> on a caller buffer of capacity
  \<open>N\<close>, the read algorithm of section 4.4 up to the point where it needs the
  transport. A caller buffer of zero capacity returns 0 without stepping the engine;
  plaintext that is left over is delivered first, \<open>min N\<close> of it; otherwise the engine
  is stepped once: \<^verbatim>\<open>data_needed\<close> is passed on, a decrypted record is stored, its
  trailing ciphertext becomes the input of the next call and \<open>min N\<close> of the plaintext
  is delivered, a close_notify is a 0-byte end of stream that starts the closing
  phase, and an error is latched. The step reports \<^verbatim>\<open>done\<close> wherever it returns a
  count.
\<close>

definition spec_decrypt_step ::
  "('c \<Rightarrow> byte list \<Rightarrow> decrypt_result \<times> 'c) \<Rightarrow> buffer list
     \<Rightarrow> ('c, 'z) decrypt_driver_scheme \<Rightarrow> state \<times> ('c, 'z) decrypt_driver_scheme" where
  "spec_decrypt_step engine buffers d =
     (let N = buffer_size buffers in
      if N = 0 then (done, d\<lparr>delivered := [], size_decrypted_count := 0\<rparr>)
      else if decrypted_remaining d \<noteq> [] then
        (done,
         d\<lparr>delivered := take N (decrypted_remaining d),
           size_decrypted_count := min N (length (decrypted_remaining d)),
           decrypted_remaining := drop N (decrypted_remaining d)\<rparr>)
      else
        (case engine (ctx_state d) (input d) of
           (Engine_data_needed, c) \<Rightarrow>
             (data_needed, d\<lparr>ctx_state := c, engine_steps := engine_steps d + 1\<rparr>)
         | (Engine_done plaintext leftover, c) \<Rightarrow>
             (done,
              d\<lparr>ctx_state := c, engine_steps := engine_steps d + 1,
                input := leftover,
                delivered := take N plaintext,
                size_decrypted_count := min N (length plaintext),
                decrypted_remaining := drop N plaintext\<rparr>)
         | (Engine_close_notify, c) \<Rightarrow>
             (done,
              d\<lparr>ctx_state := c, engine_steps := engine_steps d + 1,
                delivered := [], size_decrypted_count := 0, closing := True\<rparr>)
         | (Engine_error e, c) \<Rightarrow>
             (error,
              d\<lparr>ctx_state := c, engine_steps := engine_steps d + 1,
                latched_error := e\<rparr>)))"

text \<open>
  Modelled from the spec: \<^verbatim>\<open>sspi_decrypt\<close> as the collaborator of \<^verbatim>\<open>read_some\<close>
  (sections 3 and 4.4): the input buffer exposed is the writable tail behind the
  ciphertext held, in a buffer of the given capacity, and \<^verbatim>\<open>size_read\<close> commits that
  many bytes of the tail.
\<close>

definition spec_sspi_decrypt ::
  "('c \<Rightarrow> byte list \<Rightarrow> decrypt_result \<times> 'c) \<Rightarrow> nat
     \<Rightarrow> (('c, 'z) decrypt_driver_scheme) sspi_decrypt" where
  "spec_sspi_decrypt engine capacity =
     \<lparr>decrypt_step = spec_decrypt_step engine,
      input_buffer =
        (\<lambda>d. [\<lparr>buffer_data = length (input d),
                 buffer_len = capacity - length (input d)\<rparr>]),
      decrypt_size_read = (\<lambda>n d. d\<lparr>input := input d @ take n (writable_tail d)\<rparr>),
      decrypt_last_error = latched_error,
      size_decrypted = size_decrypted_count\<rparr>"

subsection \<open>The handshake driver\<close>

text \<open>
  Modelled from the spec: the result of the engine facade's \<^verbatim>\<open>handshake_step\<close>, which
  \<^verbatim>\<open>sspi_handshake\<close> calls (section 4.1): a status, the output produced, the number of
  input bytes consumed, and the error code that goes with the status \<^verbatim>\<open>error\<close>.
\<close>

datatype handshake_result = Handshake_result state "byte list" nat error_code

text \<open>
  Modelled from the spec: the TLS provider beneath the facade (sections 4.1 and 6),
  as far as a handshake uses it: what it produces as the initial ClientHello, what it
  answers to later calls, the manual certificate selection it requires of a client,
  and the error code for a transport that closed during the handshake.
\<close>

record 'c provider =
  client_hello :: "'c \<Rightarrow> byte list \<times> 'c"
  continue_handshake :: "handshake_type \<Rightarrow> 'c \<Rightarrow> byte list \<Rightarrow> handshake_result \<times> 'c"
  select_certificate :: "'c \<Rightarrow> 'c"
  unexpected_close :: error_code

text \<open>
  Modelled from the spec: the engine facade's \<^verbatim>\<open>handshake_step\<close> (section 4.1). On
  the first call with no input a client produces the initial ClientHello and returns
  \<^verbatim>\<open>data_available\<close>, a server returns \<^verbatim>\<open>data_needed\<close>; on later calls the provider
  consumes input, yields output and returns one of the four statuses.
\<close>

definition handshake_step_facade ::
  "'c provider \<Rightarrow> handshake_type \<Rightarrow> bool \<Rightarrow> 'c \<Rightarrow> byte list \<Rightarrow> handshake_result \<times> 'c" where
  "handshake_step_facade p role first_call c inp =
     (if first_call \<and> inp = [] then
        (if role = client
         then (case client_hello p c of
                 (hello, c') \<Rightarrow> (Handshake_result data_available hello 0 0, c'))
         else (Handshake_result data_needed [] 0 0, c))
      else continue_handshake p role c inp)"

text \<open>
  Modelled from the spec: the state of \<^verbatim>\<open>sspi_handshake\<close> (sections 3 and 4.2): the
  role, the engine's context, whether the engine has been called since the initial
  call, whether \<^verbatim>\<open>done\<close> has been reached, the latched error (the no-error value when
  none is latched), the input received, the memory of the writable tail, and the
  output pending. The SNI hostname is left out.
\<close>

record 'c handshake_driver =
  hs_role :: handshake_type
  hs_ctx :: 'c
  hs_first_call :: bool
  hs_done :: bool
  hs_latched :: error_code
  hs_input :: "byte list"
  hs_tail :: "byte list"
  hs_output :: "byte list"

text \<open>
  Modelled from the spec: the initial call of \<^verbatim>\<open>sspi_handshake\<close> with a role
  (section 4.2), \<^verbatim>\<open>handshake_(type)\<close> in the source: a handshake starts for that role,
  with nothing received and nothing to send. A latched error is sticky and stays.
\<close>

definition spec_handshake_init ::
  "handshake_type \<Rightarrow> ('c, 'z) handshake_driver_scheme \<Rightarrow> ('c, 'z) handshake_driver_scheme" where
  "spec_handshake_init type d =
     d\<lparr>hs_role := type, hs_first_call := True, hs_done := False,
       hs_input := [], hs_output := []\<rparr>"

text \<open>
  Modelled from the spec: one step of \<^verbatim>\<open>sspi_handshake\<close> (section 4.2). Once an error
  is latched every call returns \<^verbatim>\<open>error\<close> with the same code; a driver re-entered
  after \<^verbatim>\<open>done\<close> returns \<^verbatim>\<open>done\<close> again; otherwise it calls \<^verbatim>\<open>handshake_step\<close>, marks
  the input consumed, keeps the output for the orchestrator, and returns the status:
  \<^verbatim>\<open>error\<close> latches the engine's error, \<^verbatim>\<open>done\<close> is remembered, and output takes
  precedence over a request for input.
\<close>

definition spec_handshake_step ::
  "'c provider \<Rightarrow> ('c, 'z) handshake_driver_scheme
     \<Rightarrow> state \<times> ('c, 'z) handshake_driver_scheme" where
  "spec_handshake_step p d =
     (if hs_latched d \<noteq> 0 then (error, d)
      else if hs_done d then (done, d)
      else
        (case handshake_step_facade p (hs_role d) (hs_first_call d) (hs_ctx d) (hs_input d) of
           (Handshake_result st out consumed e, c) \<Rightarrow>
             (let d1 = d\<lparr>hs_ctx := c, hs_first_call := False,
                         hs_input := drop consumed (hs_input d), hs_output := out\<rparr>
              in case st of
                   error \<Rightarrow> (error, d1\<lparr>hs_latched := e\<rparr>)
                 | done \<Rightarrow> (done, d1\<lparr>hs_done := True\<rparr>)
                 | data_available \<Rightarrow> (data_available, d1)
                 | data_needed \<Rightarrow>
                     if out \<noteq> [] then (data_available, d1) else (data_needed, d1))))"

text \<open>
  Modelled from the spec: \<^verbatim>\<open>sspi_handshake\<close> as the collaborator of the handshake
  orchestrators (section 4.2). The scratch buffer has 16 KiB; \<^verbatim>\<open>size_read\<close> commits
  bytes of the writable tail, and an empty read is latched as a protocol error;
  \<^verbatim>\<open>size_written\<close> drops what was written from the output; \<^verbatim>\<open>last_error()\<close> is the
  latched error; \<^verbatim>\<open>manual_auth()\<close> is the manual certificate selection of a client
  that step 4 of section 4.2 names.
\<close>

definition spec_sspi_handshake ::
  "'c provider \<Rightarrow> (('c, 'z) handshake_driver_scheme) sspi_handshake" where
  "spec_sspi_handshake p =
     \<lparr>handshake_init = spec_handshake_init,
      handshake_step = spec_handshake_step p,
      in_buffer =
        (\<lambda>d. [\<lparr>buffer_data = length (hs_input d),
                 buffer_len = 16384 - length (hs_input d)\<rparr>]),
      out_buffer = (\<lambda>d. [\<lparr>buffer_data = 0, buffer_len = length (hs_output d)\<rparr>]),
      handshake_size_read =
        (\<lambda>n d. if n = 0 then d\<lparr>hs_latched := unexpected_close p\<rparr>
                else d\<lparr>hs_input := hs_input d @ take n (hs_tail d)\<rparr>),
      handshake_size_written = (\<lambda>n d. d\<lparr>hs_output := drop n (hs_output d)\<rparr>),
      handshake_last_error = hs_latched,
      manual_auth =
        (\<lambda>d. if hs_role d = client then d\<lparr>hs_ctx := select_certificate p (hs_ctx d)\<rparr>
              else d)\<rparr>"

section \<open>Descriptions of runs\<close>

text \<open>
  The calls a run of \<^verbatim>\<open>read_some(buffers, ec)\<close> may make, as the specification
  describes them: a step of the decrypt driver on the caller's buffers; when it
  reports \<^verbatim>\<open>data_needed\<close>, one read from the transport, which ends the run when it
  fails and is otherwise followed by the commit of exactly the count read and by the
  next step; any other status ends the run.
\<close>

fun read_some_calls :: "buffer list \<Rightarrow> call list \<Rightarrow> bool" where
  "read_some_calls buffers (Decrypt_step b st # rest) =
     (b = buffers \<and>
      (if st = data_needed then
         (case rest of
            Next_layer_read_some ib n e # rest1 \<Rightarrow>
              (if e \<noteq> 0 then rest1 = []
               else (case rest1 of
                       Decrypt_size_read m # rest2 \<Rightarrow> m = n \<and> read_some_calls buffers rest2
                     | _ \<Rightarrow> False))
          | _ \<Rightarrow> False)
       else rest = []))"
| "read_some_calls buffers _ = False"

text \<open>
  How the run ended, read off its last call: a failed transport read gives 0 and the
  error of the transport; the status \<^verbatim>\<open>error\<close> gives 0 and the error the driver
  latched; any other status gives the driver's \<^verbatim>\<open>size_decrypted\<close>.
\<close>

definition read_some_result :: "'w sspi_decrypt \<Rightarrow> nat \<Rightarrow> error_code \<Rightarrow> 'w \<Rightarrow> call \<Rightarrow> bool" where
  "read_some_result de r ec' w' c =
     (case c of
        Next_layer_read_some b n e \<Rightarrow> e \<noteq> 0 \<and> r = 0 \<and> ec' = e
      | Decrypt_step b st \<Rightarrow>
          st \<noteq> data_needed \<and>
          (if st = error then r = 0 \<and> ec' = decrypt_last_error de w'
           else r = size_decrypted de w')
      | _ \<Rightarrow> False)"

text \<open>Calls that neither complete the caller nor post the operation.\<close>

definition silent :: "call list \<Rightarrow> bool" where
  "silent calls \<longleftrightarrow> \<not> list_ex is_complete calls \<and> \<not> list_ex is_post calls"

section \<open>A scripted transport and scripted drivers\<close>

text \<open>
  Concrete collaborators on which the orchestrators can be run: the driver under
  test reports the statuses of a script, one per step, and \<^verbatim>\<open>done\<close> when the script
  is used up; the transport reads at most five bytes at a time and writes every byte
  it is given, unless it is set to fail with a given error code.
\<close>

record world =
  script :: "state list"
  read_result :: error_code
  write_result :: error_code
  driver_error :: error_code
  committed :: nat
  flushed :: nat
  plaintext :: nat
  received :: nat
  sent :: nat

definition scripted_step :: "world \<Rightarrow> state \<times> world" where
  "scripted_step w =
     (case script w of [] \<Rightarrow> (done, w) | st # sts \<Rightarrow> (st, w\<lparr>script := sts\<rparr>))"

definition scripted_next_layer :: "world next_layer" where
  "scripted_next_layer =
     \<lparr>next_layer_read_some =
        (\<lambda>bs w. if read_result w \<noteq> 0 then (0, read_result w, w)
                 else (min 5 (buffer_size bs), 0, w)),
      net_write =
        (\<lambda>bs w. if write_result w \<noteq> 0 then (0, write_result w, w)
                 else (buffer_size bs, 0, w)),
      next_layer_async_read_some =
        (\<lambda>bs w. if read_result w \<noteq> 0 then (read_result w, 0, w)
                 else (0, min 5 (buffer_size bs), w)),
      net_async_write =
        (\<lambda>bs w. if write_result w \<noteq> 0 then (write_result w, 0, w)
                 else (0, buffer_size bs, w))\<rparr>"

definition scripted_handshake :: "world sspi_handshake" where
  "scripted_handshake =
     \<lparr>handshake_init = (\<lambda>type w. w),
      handshake_step = scripted_step,
      in_buffer = (\<lambda>w. [\<lparr>buffer_data = 0, buffer_len = 16\<rparr>]),
      out_buffer = (\<lambda>w. [\<lparr>buffer_data = 16, buffer_len = 7\<rparr>]),
      handshake_size_read = (\<lambda>n w. w\<lparr>committed := committed w + n\<rparr>),
      handshake_size_written = (\<lambda>n w. w\<lparr>flushed := flushed w + n\<rparr>),
      handshake_last_error = driver_error,
      manual_auth = (\<lambda>w. w)\<rparr>"

definition scripted_decrypt :: "world sspi_decrypt" where
  "scripted_decrypt =
     \<lparr>decrypt_step = (\<lambda>bs w. scripted_step w),
      input_buffer = (\<lambda>w. [\<lparr>buffer_data = 32, buffer_len = 16\<rparr>]),
      decrypt_size_read = (\<lambda>n w. w\<lparr>committed := committed w + n\<rparr>),
      decrypt_last_error = driver_error,
      size_decrypted = plaintext\<rparr>"

definition scripted_encrypt :: "world sspi_encrypt" where
  "scripted_encrypt =
     \<lparr>encrypt_step =
        (\<lambda>bs ec w. if driver_error w \<noteq> 0 then (0, driver_error w, w)
                    else (min 4 (buffer_size bs), 0, w)),
      encrypt_buffers = (\<lambda>w. [\<lparr>buffer_data = 48, buffer_len = 9\<rparr>])\<rparr>"

definition scripted_shutdown :: "world sspi_shutdown" where
  "scripted_shutdown =
     \<lparr>shutdown_step = (\<lambda>w. (driver_error w, w)),
      shutdown_buffer = (\<lambda>w. [\<lparr>buffer_data = 64, buffer_len = 7\<rparr>]),
      shutdown_size_written = (\<lambda>n w. w\<lparr>flushed := flushed w + n\<rparr>)\<rparr>"

definition quiet :: "state list \<Rightarrow> world" where
  "quiet sts =
     \<lparr>script = sts, read_result = 0, write_result = 0, driver_error = 0,
      committed = 0, flushed = 0, plaintext = 0, received = 0, sent = 0\<rparr>"

text \<open>
  A transport that counts the bytes it has delivered and the bytes it has written,
  and an encrypt driver that counts the plaintext it has consumed: on these every
  call changes the state.
\<close>

definition recording_next_layer :: "world next_layer" where
  "recording_next_layer =
     \<lparr>next_layer_read_some =
        (\<lambda>bs w. if read_result w \<noteq> 0 then (0, read_result w, w)
                 else (min 5 (buffer_size bs), 0,
                       w\<lparr>received := received w + min 5 (buffer_size bs)\<rparr>)),
      net_write =
        (\<lambda>bs w. if write_result w \<noteq> 0 then (0, write_result w, w)
                 else (buffer_size bs, 0, w\<lparr>sent := sent w + buffer_size bs\<rparr>)),
      next_layer_async_read_some =
        (\<lambda>bs w. if read_result w \<noteq> 0 then (read_result w, 0, w)
                 else (0, min 5 (buffer_size bs),
                       w\<lparr>received := received w + min 5 (buffer_size bs)\<rparr>)),
      net_async_write =
        (\<lambda>bs w. if write_result w \<noteq> 0 then (write_result w, 0, w)
                 else (0, buffer_size bs, w\<lparr>sent := sent w + buffer_size bs\<rparr>))\<rparr>"

definition recording_encrypt :: "world sspi_encrypt" where
  "recording_encrypt =
     \<lparr>encrypt_step =
        (\<lambda>bs ec w. if driver_error w \<noteq> 0 then (0, driver_error w, w)
                    else (min 4 (buffer_size bs), 0,
                          w\<lparr>committed := committed w + min 4 (buffer_size bs)\<rparr>)),
      encrypt_buffers = (\<lambda>w. [\<lparr>buffer_data = 48, buffer_len = 9\<rparr>])\<rparr>"

text \<open>Buffers of a caller: ten bytes of capacity, and none.\<close>

definition caller_buffer :: "buffer list" where
  "caller_buffer = [\<lparr>buffer_data = 100, buffer_len = 10\<rparr>]"

definition zero_capacity :: "buffer list" where
  "zero_capacity = [\<lparr>buffer_data = 100, buffer_len = 0\<rparr>]"

text \<open>
  For the drivers of the specification: an engine that asks for more ciphertext
  whenever it is stepped, a decrypt driver that has received nothing, and a transport
  that always has five bytes to deliver.
\<close>

definition hungry_engine :: "unit \<Rightarrow> byte list \<Rightarrow> decrypt_result \<times> unit" where
  "hungry_engine c inp = (Engine_data_needed, c)"

definition idle_decrypt_driver :: "unit decrypt_driver" where
  "idle_decrypt_driver =
     \<lparr>ctx_state = (), engine_steps = 0, input = [], writable_tail = [],
      decrypted_remaining = [], delivered = [], size_decrypted_count = 0,
      latched_error = 0, closing = False\<rparr>"

definition eager_next_layer :: "'w next_layer" where
  "eager_next_layer =
     \<lparr>next_layer_read_some = (\<lambda>bs w. (min 5 (buffer_size bs), 0, w)),
      net_write = (\<lambda>bs w. (buffer_size bs, 0, w)),
      next_layer_async_read_some = (\<lambda>bs w. (0, min 5 (buffer_size bs), w)),
      net_async_write = (\<lambda>bs w. (0, buffer_size bs, w))\<rparr>"

text \<open>
  A provider whose ClientHello has three bytes and which is done as soon as it is
  given any input, a handshake driver before its initial call, and a transport that
  puts two bytes into the writable tail at every read.
\<close>

definition toy_provider :: "nat provider" where
  "toy_provider =
     \<lparr>client_hello = (\<lambda>c. ([1, 2, 3], c + 1)),
      continue_handshake =
        (\<lambda>role c inp. if inp = [] then (Handshake_result data_needed [] 0 0, c)
                       else (Handshake_result done [] (length inp) 0, c + 1)),
      select_certificate = (\<lambda>c. c),
      unexpected_close = 6\<rparr>"

definition fresh_handshake_driver :: "nat handshake_driver" where
  "fresh_handshake_driver =
     \<lparr>hs_role = server, hs_ctx = 0, hs_first_call = False, hs_done = False,
      hs_latched = 0, hs_input = [], hs_tail = [], hs_output = []\<rparr>"

definition wire_next_layer :: "(nat handshake_driver) next_layer" where
  "wire_next_layer =
     \<lparr>next_layer_read_some = (\<lambda>bs d. (2, 0, d\<lparr>hs_tail := [7, 7]\<rparr>)),
      net_write = (\<lambda>bs d. (buffer_size bs, 0, d)),
      next_layer_async_read_some = (\<lambda>bs d. (0, 2, d\<lparr>hs_tail := [7, 7]\<rparr>)),
      net_async_write = (\<lambda>bs d. (0, buffer_size bs, d))\<rparr>"

section \<open>Properties\<close>

lemmas scripted_defs =
  scripted_next_layer_def scripted_handshake_def scripted_decrypt_def scripted_encrypt_def
  scripted_shutdown_def scripted_step_def quiet_def buffer_size_def

lemmas recording_defs = recording_next_layer_def recording_encrypt_def

lemmas spec_decrypt_defs = spec_sspi_decrypt_def spec_decrypt_step_def

lemmas spec_handshake_defs =
  spec_sspi_handshake_def spec_handshake_step_def spec_handshake_init_def
  handshake_step_facade_def

lemmas async_defs = async_handshake_op_def async_handshake_start_def
  async_handshake_call_def async_handshake_loop_def async_handshake_finish_def
  is_continuation_def

text \<open>
  C10. A \<^verbatim>\<open>decrypt_buffers\<close> object is a sequence of exactly four SSPI buffers: the
  first is built from the type \<^verbatim>\<open>SECBUFFER_DATA\<close>, the other three from the type
  \<^verbatim>\<open>SECBUFFER_EMPTY\<close>, whatever the conversion from a type to a buffer; with a
  conversion that stores the type, the types of the four buffers are
  \<^verbatim>\<open>SECBUFFER_DATA\<close> and three times \<^verbatim>\<open>SECBUFFER_EMPTY\<close>, and the two types differ.
\<close>

theorem decrypt_buffers_initial:
  "length (decrypt_buffers sspi_buffer) = 4
   \<and> decrypt_buffers sspi_buffer
       = map sspi_buffer [SECBUFFER_DATA, SECBUFFER_EMPTY, SECBUFFER_EMPTY, SECBUFFER_EMPTY]
   \<and> map BufferType (decrypt_buffers SecBuffer_of_type)
       = [SECBUFFER_DATA, SECBUFFER_EMPTY, SECBUFFER_EMPTY, SECBUFFER_EMPTY]
   \<and> SECBUFFER_DATA \<noteq> SECBUFFER_EMPTY"
  by (simp add: decrypt_buffers_def SecBuffer_of_type_def SECBUFFER_DATA_def SECBUFFER_EMPTY_def)

subsection \<open>Shutdown and write\<close>

text \<open>
  C9. \<^verbatim>\<open>shutdown(ec)\<close> performs the shutdown step first. If the step fails, its error
  is returned and nothing is written to the transport. Otherwise the alert in the
  driver's buffer is written with \<^verbatim>\<open>net::write\<close>, the error of that write is what the
  caller gets, and the size written is committed to the driver exactly when the write
  succeeded.
\<close>

theorem shutdown_behaviour:
  assumes "shutdown_step sd w = (ec1, w1)"
    and "net_write nl (shutdown_buffer sd w1) w1 = (size_written, ec2, w2)"
    and "shutdown nl sd ec w = (ec', w', calls)"
  shows "calls = Shutdown_step ec1
                 # (if ec1 \<noteq> 0 then []
                    else Net_write (shutdown_buffer sd w1) size_written ec2
                         # (if ec2 = 0 then [Shutdown_size_written size_written] else []))
       \<and> ec' = (if ec1 \<noteq> 0 then ec1 else ec2)
       \<and> w' = (if ec1 \<noteq> 0 then w1
               else if ec2 = 0 then shutdown_size_written sd size_written w2 else w2)"
  using assms by (auto simp: shutdown_def split: if_splits)

theorem shutdown_behaviour_witness:
  "shutdown scripted_next_layer scripted_shutdown 0 (quiet [])
     = (0, (quiet [])\<lparr>flushed := 7\<rparr>,
        [Shutdown_step 0, Net_write [\<lparr>buffer_data = 64, buffer_len = 7\<rparr>] 7 0,
         Shutdown_size_written 7])
   \<and> shutdown scripted_next_layer scripted_shutdown 0 ((quiet [])\<lparr>write_result := 32\<rparr>)
     = (32, (quiet [])\<lparr>write_result := 32\<rparr>,
        [Shutdown_step 0, Net_write [\<lparr>buffer_data = 64, buffer_len = 7\<rparr>] 0 32])"
proof -
  let ?w = "quiet []"
  let ?v = "(quiet [])\<lparr>write_result := 32\<rparr>"
  have s1: "shutdown_step scripted_shutdown ?w = (0, ?w)" by (simp add: scripted_defs)
  have n1: "net_write scripted_next_layer (shutdown_buffer scripted_shutdown ?w) ?w = (7, 0, ?w)"
    by (simp add: scripted_defs)
  obtain ec' w' calls where r1: "shutdown scripted_next_layer scripted_shutdown 0 ?w = (ec', w', calls)"
    by (cases "shutdown scripted_next_layer scripted_shutdown 0 ?w")
  have s2: "shutdown_step scripted_shutdown ?v = (0, ?v)" by (simp add: scripted_defs)
  have n2: "net_write scripted_next_layer (shutdown_buffer scripted_shutdown ?v) ?v = (0, 32, ?v)"
    by (simp add: scripted_defs)
  obtain ec'' w'' calls' where r2: "shutdown scripted_next_layer scripted_shutdown 0 ?v = (ec'', w'', calls')"
    by (cases "shutdown scripted_next_layer scripted_shutdown 0 ?v")
  from shutdown_behaviour[OF s1 n1 r1] shutdown_behaviour[OF s2 n2 r2] r1 r2 show ?thesis
    by (simp add: scripted_defs)
qed

text \<open>
  C4. \<^verbatim>\<open>write_some(buffers, ec)\<close> invokes the encrypt step exactly once. When the step
  fails the call returns 0 with that error, writes nothing and leaves the state as
  the step left it; otherwise the driver's ciphertext is written with \<^verbatim>\<open>net::write\<close>
  and the state is the one the transport is in after the write; the call then returns
  0 with the error of the write when it fails, and the count the encrypt step consumed
  when it succeeds; a successful \<^verbatim>\<open>net::write\<close> has written the whole ciphertext.
\<close>

theorem write_some_behaviour:
  assumes "encrypt_step en buffers ec w = (bytes_consumed, ec1, w1)"
    and "net_write nl (encrypt_buffers en w1) w1 = (n, ec2, w2)"
    and "write_some nl en buffers ec w = (r, ec', w', calls)"
  shows "length (filter is_encrypt_step calls) = 1
       \<and> calls = Encrypt_step buffers bytes_consumed ec1
                 # (if ec1 \<noteq> 0 then [] else [Net_write (encrypt_buffers en w1) n ec2])
       \<and> ec' = (if ec1 \<noteq> 0 then ec1 else ec2)
       \<and> r = (if ec' \<noteq> 0 then 0 else bytes_consumed)
       \<and> w' = (if ec1 \<noteq> 0 then w1 else w2)
       \<and> (ec' = 0 \<and> writes_all nl \<longrightarrow> n = buffer_size (encrypt_buffers en w1))"
  using assms by (auto simp: write_some_def writes_all_def split: if_splits)

theorem write_some_behaviour_witness:
  "writes_all recording_next_layer
   \<and> write_some recording_next_layer recording_encrypt caller_buffer 0 (quiet [])
     = (4, 0, (quiet [])\<lparr>committed := 4, sent := 9\<rparr>,
        [Encrypt_step caller_buffer 4 0,
         Net_write [\<lparr>buffer_data = 48, buffer_len = 9\<rparr>] 9 0])
   \<and> buffer_size (encrypt_buffers recording_encrypt ((quiet [])\<lparr>committed := 4\<rparr>)) = 9
   \<and> write_some recording_next_layer recording_encrypt caller_buffer 0
        ((quiet [])\<lparr>write_result := 32\<rparr>)
     = (0, 32, (quiet [])\<lparr>write_result := 32, committed := 4\<rparr>,
        [Encrypt_step caller_buffer 4 0,
         Net_write [\<lparr>buffer_data = 48, buffer_len = 9\<rparr>] 0 32])"
proof -
  let ?w = "quiet []"
  let ?w1 = "(quiet [])\<lparr>committed := 4\<rparr>"
  let ?w2 = "(quiet [])\<lparr>committed := 4, sent := 9\<rparr>"
  let ?v = "(quiet [])\<lparr>write_result := 32\<rparr>"
  let ?v1 = "(quiet [])\<lparr>write_result := 32, committed := 4\<rparr>"
  have wa: "writes_all recording_next_layer"
    by (auto simp: writes_all_def recording_next_layer_def split: if_splits)
  have e: "encrypt_step recording_encrypt caller_buffer 0 ?w = (4, 0, ?w1)"
    by (simp add: scripted_defs recording_defs caller_buffer_def)
  have n: "net_write recording_next_layer (encrypt_buffers recording_encrypt ?w1) ?w1
             = (9, 0, ?w2)"
    by (simp add: scripted_defs recording_defs)
  obtain r ec' w' calls where
    run: "write_some recording_next_layer recording_encrypt caller_buffer 0 ?w
            = (r, ec', w', calls)"
    by (cases "write_some recording_next_layer recording_encrypt caller_buffer 0 ?w")
  have e2: "encrypt_step recording_encrypt caller_buffer 0 ?v = (4, 0, ?v1)"
    by (simp add: scripted_defs recording_defs caller_buffer_def)
  have n2: "net_write recording_next_layer (encrypt_buffers recording_encrypt ?v1) ?v1
             = (0, 32, ?v1)"
    by (simp add: scripted_defs recording_defs)
  obtain r2 ec2 w2 calls2 where
    run2: "write_some recording_next_layer recording_encrypt caller_buffer 0 ?v
            = (r2, ec2, w2, calls2)"
    by (cases "write_some recording_next_layer recording_encrypt caller_buffer 0 ?v")
  from write_some_behaviour[OF e n run] write_some_behaviour[OF e2 n2 run2] wa run run2
  show ?thesis
    by (simp add: scripted_defs recording_defs)
qed

subsection \<open>Reading\<close>

lemma read_some_whole_run:
  "read_some fuel nl de buffers ec w = Some (r, ec', w', calls) \<Longrightarrow>
     read_some_calls buffers calls \<and> calls \<noteq> [] \<and> read_some_result de r ec' w' (last calls)"
proof (induction fuel arbitrary: ec w r ec' w' calls)
  case 0
  then show ?case by simp
next
  case (Suc fuel)
  obtain st w1 where st: "decrypt_step de buffers w = (st, w1)" by (cases "decrypt_step de buffers w")
  obtain n e w2 where rd: "next_layer_read_some nl (input_buffer de w1) w1 = (n, e, w2)"
    by (cases "next_layer_read_some nl (input_buffer de w1) w1")
  show ?case
  proof (cases "st = data_needed \<and> e = 0")
    case True
    with Suc.prems st rd obtain r0 ec0 w0 calls0 where
      rec: "read_some fuel nl de buffers e (decrypt_size_read de n w2) = Some (r0, ec0, w0, calls0)"
      and res: "r = r0" "ec' = ec0" "w' = w0"
        "calls = Decrypt_step buffers st # Next_layer_read_some (input_buffer de w1) n e
                 # Decrypt_size_read n # calls0"
      by auto
    from Suc.IH[OF rec] res True show ?thesis by simp
  next
    case False
    with Suc.prems st rd show ?thesis
      by (auto simp: read_some_result_def split: if_splits)
  qed
qed

text \<open>
  C3. One iteration of \<^verbatim>\<open>read_some(buffers, ec)\<close>, from any state. When the driver
  reports \<^verbatim>\<open>data_needed\<close>, the orchestrator reads from the transport into the
  driver's input buffer; when that read fails the call returns 0 with the error of
  the transport, and when it succeeds the count is committed and the call does
  whatever the loop does from the committed state, with the three calls in front.
  When the driver reports \<^verbatim>\<open>error\<close>, the call returns 0 with the error the driver
  latched; on any other status it returns the driver's \<^verbatim>\<open>size_decrypted\<close>. Every run
  that returns has made the calls the specification describes and ended in one of
  these three ways.
\<close>

theorem read_some_behaviour:
  assumes step: "decrypt_step de buffers w = (st, w1)"
    and rd: "next_layer_read_some nl (input_buffer de w1) w1 = (n, e, w2)"
  shows "(st = data_needed \<and> e \<noteq> 0 \<longrightarrow>
            read_some (Suc fuel) nl de buffers ec w
              = Some (0, e, w2,
                      [Decrypt_step buffers data_needed,
                       Next_layer_read_some (input_buffer de w1) n e]))
       \<and> (st = data_needed \<and> e = 0 \<longrightarrow>
            read_some (Suc fuel) nl de buffers ec w
              = map_option
                  (\<lambda>(r, ec', w', calls).
                     (r, ec', w',
                      Decrypt_step buffers data_needed
                      # Next_layer_read_some (input_buffer de w1) n 0
                      # Decrypt_size_read n # calls))
                  (read_some fuel nl de buffers 0 (decrypt_size_read de n w2)))
       \<and> (st = error \<longrightarrow>
            read_some (Suc fuel) nl de buffers ec w
              = Some (0, decrypt_last_error de w1, w1, [Decrypt_step buffers error]))
       \<and> (st \<noteq> data_needed \<and> st \<noteq> error \<longrightarrow>
            read_some (Suc fuel) nl de buffers ec w
              = Some (size_decrypted de w1, ec, w1, [Decrypt_step buffers st]))
       \<and> (read_some fuel nl de buffers ec w = Some (r, ec', w', calls) \<longrightarrow>
            read_some_calls buffers calls \<and> read_some_result de r ec' w' (last calls)
            \<and> (st = data_needed \<longrightarrow>
                 take 2 calls = [Decrypt_step buffers data_needed,
                                 Next_layer_read_some (input_buffer de w1) n e])
            \<and> (st = data_needed \<and> e = 0 \<longrightarrow>
                 calls ! 2 = Decrypt_size_read n
                 \<and> (\<exists>fuel'. fuel = Suc fuel'
                       \<and> read_some fuel' nl de buffers 0 (decrypt_size_read de n w2)
                           = Some (r, ec', w', drop 3 calls))))"
proof -
  have iter: "(st = data_needed \<and> e \<noteq> 0 \<longrightarrow>
            read_some (Suc fuel) nl de buffers ec w
              = Some (0, e, w2,
                      [Decrypt_step buffers data_needed,
                       Next_layer_read_some (input_buffer de w1) n e]))
       \<and> (st = data_needed \<and> e = 0 \<longrightarrow>
            read_some (Suc fuel) nl de buffers ec w
              = map_option
                  (\<lambda>(r, ec', w', calls).
                     (r, ec', w',
                      Decrypt_step buffers data_needed
                      # Next_layer_read_some (input_buffer de w1) n 0
                      # Decrypt_size_read n # calls))
                  (read_some fuel nl de buffers 0 (decrypt_size_read de n w2)))
       \<and> (st = error \<longrightarrow>
            read_some (Suc fuel) nl de buffers ec w
              = Some (0, decrypt_last_error de w1, w1, [Decrypt_step buffers error]))
       \<and> (st \<noteq> data_needed \<and> st \<noteq> error \<longrightarrow>
            read_some (Suc fuel) nl de buffers ec w
              = Some (size_decrypted de w1, ec, w1, [Decrypt_step buffers st]))"
    using step rd by simp
  have whole: "read_some_calls buffers calls \<and> read_some_result de r ec' w' (last calls)
            \<and> (st = data_needed \<longrightarrow>
                 take 2 calls = [Decrypt_step buffers data_needed,
                                 Next_layer_read_some (input_buffer de w1) n e])
            \<and> (st = data_needed \<and> e = 0 \<longrightarrow>
                 calls ! 2 = Decrypt_size_read n
                 \<and> (\<exists>fuel'. fuel = Suc fuel'
                       \<and> read_some fuel' nl de buffers 0 (decrypt_size_read de n w2)
                           = Some (r, ec', w', drop 3 calls)))"
    if run: "read_some fuel nl de buffers ec w = Some (r, ec', w', calls)"
  proof -
    from run obtain fuel' where f: "fuel = Suc fuel'" by (cases fuel) auto
    from read_some_whole_run[OF run]
    have a: "read_some_calls buffers calls \<and> read_some_result de r ec' w' (last calls)"
      by simp
    from run step rd have b:
      "(st = data_needed \<longrightarrow>
          take 2 calls = [Decrypt_step buffers data_needed,
                          Next_layer_read_some (input_buffer de w1) n e])
       \<and> (st = data_needed \<and> e = 0 \<longrightarrow>
             calls ! 2 = Decrypt_size_read n
             \<and> read_some fuel' nl de buffers 0 (decrypt_size_read de n w2)
                   = Some (r, ec', w', drop 3 calls))"
      unfolding f by (auto split: if_splits)
    with a f show ?thesis by blast
  qed
  from iter whole show ?thesis by blast
qed

theorem read_some_behaviour_witness:
  "read_some (Suc (Suc (Suc 0))) recording_next_layer scripted_decrypt caller_buffer 0
       ((quiet [data_needed, data_needed])\<lparr>plaintext := 3\<rparr>)
     = Some (3, 0, (quiet [])\<lparr>plaintext := 3, committed := 10, received := 10\<rparr>,
             [Decrypt_step caller_buffer data_needed,
              Next_layer_read_some [\<lparr>buffer_data = 32, buffer_len = 16\<rparr>] 5 0,
              Decrypt_size_read 5,
              Decrypt_step caller_buffer data_needed,
              Next_layer_read_some [\<lparr>buffer_data = 32, buffer_len = 16\<rparr>] 5 0,
              Decrypt_size_read 5,
              Decrypt_step caller_buffer done])
   \<and> read_some (Suc 0) recording_next_layer scripted_decrypt caller_buffer 0
        ((quiet [data_needed])\<lparr>read_result := 104\<rparr>)
     = Some (0, 104, (quiet [])\<lparr>read_result := 104\<rparr>,
             [Decrypt_step caller_buffer data_needed,
              Next_layer_read_some [\<lparr>buffer_data = 32, buffer_len = 16\<rparr>] 0 104])
   \<and> read_some (Suc 0) recording_next_layer scripted_decrypt caller_buffer 0
        ((quiet [error])\<lparr>driver_error := 9\<rparr>)
     = Some (0, 9, (quiet [])\<lparr>driver_error := 9\<rparr>, [Decrypt_step caller_buffer error])"
proof -
  let ?w = "(quiet [data_needed, data_needed])\<lparr>plaintext := 3\<rparr>"
  let ?w1 = "(quiet [data_needed])\<lparr>plaintext := 3\<rparr>"
  let ?w2 = "(quiet [data_needed])\<lparr>plaintext := 3, received := 5\<rparr>"
  let ?w3 = "(quiet [data_needed])\<lparr>plaintext := 3, received := 5, committed := 5\<rparr>"
  let ?w4 = "(quiet [])\<lparr>plaintext := 3, received := 5, committed := 5\<rparr>"
  let ?w5 = "(quiet [])\<lparr>plaintext := 3, received := 10, committed := 5\<rparr>"
  let ?x = "(quiet [error])\<lparr>driver_error := 9\<rparr>"
  let ?x1 = "(quiet [])\<lparr>driver_error := 9\<rparr>"
  let ?y = "(quiet [data_needed])\<lparr>read_result := 104\<rparr>"
  let ?y1 = "(quiet [])\<lparr>read_result := 104\<rparr>"
  have s1: "decrypt_step scripted_decrypt caller_buffer ?w = (data_needed, ?w1)"
    by (simp add: scripted_defs)
  have r1: "next_layer_read_some recording_next_layer (input_buffer scripted_decrypt ?w1) ?w1
              = (5, 0, ?w2)"
    by (simp add: scripted_defs recording_defs)
  have s2: "decrypt_step scripted_decrypt caller_buffer ?w3 = (data_needed, ?w4)"
    by (simp add: scripted_defs)
  have r2: "next_layer_read_some recording_next_layer (input_buffer scripted_decrypt ?w4) ?w4
              = (5, 0, ?w5)"
    by (simp add: scripted_defs recording_defs)
  have s3: "decrypt_step scripted_decrypt caller_buffer
              ((quiet [])\<lparr>plaintext := 3, received := 10, committed := 10\<rparr>)
              = (done, (quiet [])\<lparr>plaintext := 3, received := 10, committed := 10\<rparr>)"
    by (simp add: scripted_defs)
  have r3: "next_layer_read_some recording_next_layer
              (input_buffer scripted_decrypt
                 ((quiet [])\<lparr>plaintext := 3, received := 10, committed := 10\<rparr>))
              ((quiet [])\<lparr>plaintext := 3, received := 10, committed := 10\<rparr>)
              = (5, 0, (quiet [])\<lparr>plaintext := 3, received := 15, committed := 10\<rparr>)"
    by (simp add: scripted_defs recording_defs)
  have sx: "decrypt_step scripted_decrypt caller_buffer ?x = (error, ?x1)"
    by (simp add: scripted_defs)
  have rx: "next_layer_read_some recording_next_layer (input_buffer scripted_decrypt ?x1) ?x1
              = (5, 0, ?x1\<lparr>received := 5\<rparr>)"
    by (simp add: scripted_defs recording_defs)
  have sy: "decrypt_step scripted_decrypt caller_buffer ?y = (data_needed, ?y1)"
    by (simp add: scripted_defs)
  have ry: "next_layer_read_some recording_next_layer (input_buffer scripted_decrypt ?y1) ?y1
              = (0, 104, ?y1)"
    by (simp add: scripted_defs recording_defs)
  have third: "read_some (Suc 0) recording_next_layer scripted_decrypt caller_buffer 0
                 ((quiet [])\<lparr>plaintext := 3, received := 10, committed := 10\<rparr>)
     = Some (3, 0, (quiet [])\<lparr>plaintext := 3, received := 10, committed := 10\<rparr>,
             [Decrypt_step caller_buffer done])"
    using read_some_behaviour[OF s3 r3, where fuel = 0 and ec = 0]
    by (simp add: scripted_defs)
  have second: "read_some (Suc (Suc 0)) recording_next_layer scripted_decrypt caller_buffer 0 ?w3
     = Some (3, 0, (quiet [])\<lparr>plaintext := 3, received := 10, committed := 10\<rparr>,
             [Decrypt_step caller_buffer data_needed,
              Next_layer_read_some [\<lparr>buffer_data = 32, buffer_len = 16\<rparr>] 5 0,
              Decrypt_size_read 5,
              Decrypt_step caller_buffer done])"
    using read_some_behaviour[OF s2 r2, where fuel = "Suc 0" and ec = 0] third
    by (simp add: scripted_defs)
  have first: "read_some (Suc (Suc (Suc 0))) recording_next_layer scripted_decrypt caller_buffer 0 ?w
     = Some (3, 0, (quiet [])\<lparr>plaintext := 3, committed := 10, received := 10\<rparr>,
             [Decrypt_step caller_buffer data_needed,
              Next_layer_read_some [\<lparr>buffer_data = 32, buffer_len = 16\<rparr>] 5 0,
              Decrypt_size_read 5,
              Decrypt_step caller_buffer data_needed,
              Next_layer_read_some [\<lparr>buffer_data = 32, buffer_len = 16\<rparr>] 5 0,
              Decrypt_size_read 5,
              Decrypt_step caller_buffer done])"
    using read_some_behaviour[OF s1 r1, where fuel = "Suc (Suc 0)" and ec = 0] second
    by (simp add: scripted_defs)
  have failed: "read_some (Suc 0) recording_next_layer scripted_decrypt caller_buffer 0 ?y
     = Some (0, 104, ?y1,
             [Decrypt_step caller_buffer data_needed,
              Next_layer_read_some [\<lparr>buffer_data = 32, buffer_len = 16\<rparr>] 0 104])"
    using read_some_behaviour[OF sy ry, where fuel = 0 and ec = 0]
    by (simp add: scripted_defs)
  have latched: "read_some (Suc 0) recording_next_layer scripted_decrypt caller_buffer 0 ?x
     = Some (0, 9, ?x1, [Decrypt_step caller_buffer error])"
    using read_some_behaviour[OF sx rx, where fuel = 0 and ec = 0]
    by (simp add: scripted_defs)
  from first failed latched show ?thesis by blast
qed

text \<open>
  C5. With the decrypt driver of the specification, a call of \<^verbatim>\<open>read_some\<close> on a
  caller buffer of zero total capacity returns 0 after the one step of the driver,
  whatever the transport and the engine are: the engine has not been stepped (its
  context and the number of its steps are as before), no transport I/O has been
  performed, and \<^verbatim>\<open>ec\<close> is as the caller passed it.
\<close>

theorem read_some_zero_capacity:
  assumes "buffer_size buffers = 0"
  shows "read_some (Suc fuel) nl (spec_sspi_decrypt engine capacity) buffers ec d
           = Some (0, ec, d\<lparr>delivered := [], size_decrypted_count := 0\<rparr>,
                   [Decrypt_step buffers done])
       \<and> engine_steps (d\<lparr>delivered := [], size_decrypted_count := 0\<rparr>) = engine_steps d
       \<and> ctx_state (d\<lparr>delivered := [], size_decrypted_count := 0\<rparr>) = ctx_state d
       \<and> input (d\<lparr>delivered := [], size_decrypted_count := 0\<rparr>) = input d
       \<and> \<not> list_ex is_transport_io [Decrypt_step buffers done]"
  using assms by (simp add: spec_decrypt_defs)

theorem read_some_zero_capacity_witness:
  "buffer_size zero_capacity = 0
   \<and> read_some (Suc 0) eager_next_layer (spec_sspi_decrypt hungry_engine 16384) zero_capacity 0
        idle_decrypt_driver
     = Some (0, 0, idle_decrypt_driver, [Decrypt_step zero_capacity done])
   \<and> decrypt_step (spec_sspi_decrypt hungry_engine 16384) caller_buffer idle_decrypt_driver
     = (data_needed, idle_decrypt_driver\<lparr>engine_steps := 1\<rparr>)"
proof -
  have z: "buffer_size zero_capacity = 0"
    by (simp add: zero_capacity_def buffer_size_def)
  have same: "idle_decrypt_driver\<lparr>delivered := [], size_decrypted_count := 0\<rparr>
                = idle_decrypt_driver"
    by (simp add: idle_decrypt_driver_def)
  have stepped: "decrypt_step (spec_sspi_decrypt hungry_engine 16384) caller_buffer
                   idle_decrypt_driver
                 = (data_needed, idle_decrypt_driver\<lparr>engine_steps := 1\<rparr>)"
    by (simp add: spec_decrypt_defs hungry_engine_def idle_decrypt_driver_def
          caller_buffer_def buffer_size_def)
  from read_some_zero_capacity[OF z, where fuel = 0 and nl = eager_next_layer
         and engine = hungry_engine and capacity = 16384 and ec = 0
         and d = idle_decrypt_driver] same
  have "read_some (Suc 0) eager_next_layer (spec_sspi_decrypt hungry_engine 16384)
          zero_capacity 0 idle_decrypt_driver
        = Some (0, 0, idle_decrypt_driver, [Decrypt_step zero_capacity done])"
    by simp
  with z stepped show ?thesis by blast
qed

text \<open>
  C1. The throwing variants call the error-code variant, throw when it left an error,
  and otherwise reach the closing brace with no \<^verbatim>\<open>return\<close> statement. Where the
  error-code variants succeed with 3 bytes read and with 4 bytes consumed, the
  throwing variants make the same calls and return no value.
\<close>

theorem throwing_variants_return_no_value:
  "read_some (Suc 0) scripted_next_layer scripted_decrypt caller_buffer 0
       ((quiet [])\<lparr>plaintext := 3\<rparr>)
     = Some (3, 0, (quiet [])\<lparr>plaintext := 3\<rparr>, [Decrypt_step caller_buffer done])
   \<and> read_some_throwing (Suc 0) scripted_next_layer scripted_decrypt caller_buffer
       ((quiet [])\<lparr>plaintext := 3\<rparr>)
     = Some (No_return_value, (quiet [])\<lparr>plaintext := 3\<rparr>, [Decrypt_step caller_buffer done])
   \<and> write_some scripted_next_layer scripted_encrypt caller_buffer 0 (quiet [])
     = (4, 0, quiet [],
        [Encrypt_step caller_buffer 4 0,
         Net_write [\<lparr>buffer_data = 48, buffer_len = 9\<rparr>] 9 0])
   \<and> write_some_throwing scripted_next_layer scripted_encrypt caller_buffer (quiet [])
     = (No_return_value, quiet [],
        [Encrypt_step caller_buffer 4 0,
         Net_write [\<lparr>buffer_data = 48, buffer_len = 9\<rparr>] 9 0])"
  by (simp add: scripted_defs caller_buffer_def read_some_throwing_def write_some_throwing_def
        write_some_def)

lemma throwing_variants_never_return:
  "read_some_throwing fuel nl de buffers w \<noteq> Some (Returns n, w', calls)"
  "write_some_throwing nl en buffers w \<noteq> (Returns n, w', calls)"
  by (auto simp: read_some_throwing_def write_some_throwing_def split: prod.splits if_splits)

subsection \<open>The blocking handshake\<close>

text \<open>
  How a run of the loop of \<^verbatim>\<open>handshake(type, ec)\<close> ends: on a failed read or write
  with the error of the transport, on the status \<^verbatim>\<open>error\<close> with the error the driver
  latched, and on \<^verbatim>\<open>done\<close> with the no-error value when a transport operation has
  succeeded before, but with the caller's own \<^verbatim>\<open>ec\<close> when \<^verbatim>\<open>done\<close> is the first
  status.
\<close>

lemma handshake_loop_result:
  "handshake_loop fuel nl hs ec w = Some (ec', w', calls) \<Longrightarrow>
     calls \<noteq> [] \<and>
     (case last calls of
        Next_layer_read_some b n e \<Rightarrow> e \<noteq> 0 \<and> ec' = e
      | Net_write b n e \<Rightarrow> e \<noteq> 0 \<and> ec' = e
      | Handshake_step st \<Rightarrow>
          (st = error \<and> ec' = handshake_last_error hs w')
          \<or> (st = done \<and> ec' = (if length calls = 1 then ec else 0))
      | _ \<Rightarrow> False)"
proof (induction fuel arbitrary: ec w ec' w' calls)
  case 0
  then show ?case by simp
next
  case (Suc fuel)
  obtain st w1 where st: "handshake_step hs w = (st, w1)" by (cases "handshake_step hs w")
  obtain n e w2 where rd: "next_layer_read_some nl (in_buffer hs w1) w1 = (n, e, w2)"
    by (cases "next_layer_read_some nl (in_buffer hs w1) w1")
  obtain m e' w3 where wr: "net_write nl (out_buffer hs w1) w1 = (m, e', w3)"
    by (cases "net_write nl (out_buffer hs w1) w1")
  consider (needed) "st = data_needed" | (available) "st = data_available"
    | (finished) "st = done" | (failed) "st = error"
    by (cases st) auto
  then show ?case
  proof cases
    case needed
    show ?thesis
    proof (cases "e = 0")
      case True
      with Suc.prems st rd needed obtain calls0 where
        rec: "handshake_loop fuel nl hs 0 (handshake_size_read hs n w2) = Some (ec', w', calls0)"
        and c: "calls = Handshake_step st # Next_layer_read_some (in_buffer hs w1) n e
                        # Handshake_size_read n # calls0"
        by auto
      from Suc.IH[OF rec] c show ?thesis by (auto split: call.splits)
    next
      case False
      with Suc.prems st rd needed show ?thesis by auto
    qed
  next
    case available
    show ?thesis
    proof (cases "e' = 0")
      case True
      with Suc.prems st wr available obtain calls0 where
        rec: "handshake_loop fuel nl hs 0 (handshake_size_written hs m w3) = Some (ec', w', calls0)"
        and c: "calls = Handshake_step st # Net_write (out_buffer hs w1) m e'
                        # Handshake_size_written m # calls0"
        by auto
      from Suc.IH[OF rec] c show ?thesis by (auto split: call.splits)
    next
      case False
      with Suc.prems st wr available show ?thesis by auto
    qed
  next
    case finished
    with Suc.prems st show ?thesis by auto
  next
    case failed
    with Suc.prems st show ?thesis by auto
  qed
qed

lemma handshake_loop_head:
  "handshake_loop fuel nl hs ec w = Some (ec', w', calls) \<Longrightarrow>
     calls \<noteq> [] \<and> hd calls = Handshake_step (fst (handshake_step hs w))"
  by (cases fuel) (auto split: prod.splits state.splits if_splits)

lemma handshake_result:
  assumes run: "handshake fuel nl hs type ec w = Some (ec', w', calls)"
  shows "(case last calls of
            Next_layer_read_some b n e \<Rightarrow> e \<noteq> 0 \<and> ec' = e
          | Net_write b n e \<Rightarrow> e \<noteq> 0 \<and> ec' = e
          | Handshake_step s \<Rightarrow>
              s = error \<and> ec' = handshake_last_error hs w'
              \<or> s = done
                \<and> (ec = 0 \<or> fst (handshake_step hs (handshake_init hs type w)) \<noteq> done
                     \<longrightarrow> ec' = 0)
          | _ \<Rightarrow> False)"
proof -
  from run obtain calls0 where
    loop: "handshake_loop fuel nl hs ec (handshake_init hs type w) = Some (ec', w', calls0)"
    and c: "calls = Handshake_init type # calls0"
    by (auto simp: handshake_def)
  from handshake_loop_head[OF loop] have ne: "calls0 \<noteq> []"
    and hd: "hd calls0 = Handshake_step (fst (handshake_step hs (handshake_init hs type w)))"
    by simp_all
  have single: "fst (handshake_step hs (handshake_init hs type w)) = s"
    if "length calls0 = 1" "last calls0 = Handshake_step s" for s
  proof -
    from that(1) obtain x where "calls0 = [x]" by (cases calls0) auto
    with hd that(2) show ?thesis by simp
  qed
  from handshake_loop_result[OF loop] have res:
    "(case last calls0 of
        Next_layer_read_some b n e \<Rightarrow> e \<noteq> 0 \<and> ec' = e
      | Net_write b n e \<Rightarrow> e \<noteq> 0 \<and> ec' = e
      | Handshake_step st \<Rightarrow>
          (st = error \<and> ec' = handshake_last_error hs w')
          \<or> (st = done \<and> ec' = (if length calls0 = 1 then ec else 0))
      | _ \<Rightarrow> False)"
    by simp
  from c ne have l: "last calls = last calls0" by simp
  show ?thesis
    unfolding l using res single
    by (cases "last calls0") (auto split: if_splits)
qed

text \<open>
  C2. One iteration of the loop of \<^verbatim>\<open>handshake(type, ec)\<close>, from any state. On
  \<^verbatim>\<open>data_needed\<close> the orchestrator reads once from the transport into the driver's
  input buffer; a failed read ends the call with the error of the transport, a
  successful one is committed with \<^verbatim>\<open>size_read\<close> and the loop goes on, with \<^verbatim>\<open>ec\<close>
  clear. On \<^verbatim>\<open>data_available\<close> it writes the driver's output buffer with
  \<^verbatim>\<open>net::write\<close>, which has written the whole buffer when it reports no error; a
  failed write ends the call with its error, a successful one is committed with
  \<^verbatim>\<open>size_written\<close> and the loop goes on, with \<^verbatim>\<open>ec\<close> clear. On \<^verbatim>\<open>error\<close> the call
  returns the error the driver latched. On \<^verbatim>\<open>done\<close> the call returns and leaves
  \<^verbatim>\<open>ec\<close> as it is, which is clear in every iteration after the first: a call that
  ends on \<^verbatim>\<open>done\<close> reports success whenever the caller's \<^verbatim>\<open>ec\<close> was clear on entry
  or \<^verbatim>\<open>done\<close> was not the driver's first status.
\<close>

theorem handshake_behaviour:
  assumes step: "handshake_step hs w = (st, w1)"
    and rd: "next_layer_read_some nl (in_buffer hs w1) w1 = (n, e, w2)"
    and wr: "net_write nl (out_buffer hs w1) w1 = (m, e', w3)"
  shows "(st = data_needed \<and> e \<noteq> 0 \<longrightarrow>
            handshake_loop (Suc fuel) nl hs ec w
              = Some (e, w2,
                      [Handshake_step data_needed,
                       Next_layer_read_some (in_buffer hs w1) n e]))
       \<and> (st = data_needed \<and> e = 0 \<longrightarrow>
            handshake_loop (Suc fuel) nl hs ec w
              = map_option
                  (\<lambda>(ec', w', calls).
                     (ec', w',
                      Handshake_step data_needed
                      # Next_layer_read_some (in_buffer hs w1) n 0
                      # Handshake_size_read n # calls))
                  (handshake_loop fuel nl hs 0 (handshake_size_read hs n w2)))
       \<and> (st = data_available \<and> e' \<noteq> 0 \<longrightarrow>
            handshake_loop (Suc fuel) nl hs ec w
              = Some (e', w3,
                      [Handshake_step data_available,
                       Net_write (out_buffer hs w1) m e']))
       \<and> (st = data_available \<and> e' = 0 \<longrightarrow>
            handshake_loop (Suc fuel) nl hs ec w
              = map_option
                  (\<lambda>(ec', w', calls).
                     (ec', w',
                      Handshake_step data_available
                      # Net_write (out_buffer hs w1) m 0
                      # Handshake_size_written m # calls))
                  (handshake_loop fuel nl hs 0 (handshake_size_written hs m w3))
            \<and> (writes_all nl \<longrightarrow> m = buffer_size (out_buffer hs w1)))
       \<and> (st = error \<longrightarrow>
            handshake_loop (Suc fuel) nl hs ec w
              = Some (handshake_last_error hs w1, w1, [Handshake_step error]))
       \<and> (st = done \<longrightarrow>
            handshake_loop (Suc fuel) nl hs ec w = Some (ec, w1, [Handshake_step done]))
       \<and> handshake fuel' nl hs type ec0 w0
           = map_option (\<lambda>(ec', w', calls). (ec', w', Handshake_init type # calls))
               (handshake_loop fuel' nl hs ec0 (handshake_init hs type w0))
       \<and> (handshake fuel' nl hs type ec0 w0 = Some (ec', w', calls) \<longrightarrow>
            (case last calls of
               Next_layer_read_some b n e \<Rightarrow> e \<noteq> 0 \<and> ec' = e
             | Net_write b n e \<Rightarrow> e \<noteq> 0 \<and> ec' = e
             | Handshake_step s \<Rightarrow>
                 s = error \<and> ec' = handshake_last_error hs w'
                 \<or> s = done
                   \<and> (ec0 = 0 \<or> fst (handshake_step hs (handshake_init hs type w0)) \<noteq> done
                        \<longrightarrow> ec' = 0)
             | _ \<Rightarrow> False))"
proof -
  have iter: "(st = data_needed \<and> e \<noteq> 0 \<longrightarrow>
            handshake_loop (Suc fuel) nl hs ec w
              = Some (e, w2,
                      [Handshake_step data_needed,
                       Next_layer_read_some (in_buffer hs w1) n e]))
       \<and> (st = data_needed \<and> e = 0 \<longrightarrow>
            handshake_loop (Suc fuel) nl hs ec w
              = map_option
                  (\<lambda>(ec', w', calls).
                     (ec', w',
                      Handshake_step data_needed
                      # Next_layer_read_some (in_buffer hs w1) n 0
                      # Handshake_size_read n # calls))
                  (handshake_loop fuel nl hs 0 (handshake_size_read hs n w2)))
       \<and> (st = data_available \<and> e' \<noteq> 0 \<longrightarrow>
            handshake_loop (Suc fuel) nl hs ec w
              = Some (e', w3,
                      [Handshake_step data_available,
                       Net_write (out_buffer hs w1) m e']))
       \<and> (st = data_available \<and> e' = 0 \<longrightarrow>
            handshake_loop (Suc fuel) nl hs ec w
              = map_option
                  (\<lambda>(ec', w', calls).
                     (ec', w',
                      Handshake_step data_available
                      # Net_write (out_buffer hs w1) m 0
                      # Handshake_size_written m # calls))
                  (handshake_loop fuel nl hs 0 (handshake_size_written hs m w3))
            \<and> (writes_all nl \<longrightarrow> m = buffer_size (out_buffer hs w1)))
       \<and> (st = error \<longrightarrow>
            handshake_loop (Suc fuel) nl hs ec w
              = Some (handshake_last_error hs w1, w1, [Handshake_step error]))
       \<and> (st = done \<longrightarrow>
            handshake_loop (Suc fuel) nl hs ec w = Some (ec, w1, [Handshake_step done]))"
    using step rd wr by (auto simp: writes_all_def)
  have entry: "handshake fuel' nl hs type ec0 w0
           = map_option (\<lambda>(ec', w', calls). (ec', w', Handshake_init type # calls))
               (handshake_loop fuel' nl hs ec0 (handshake_init hs type w0))"
    by (simp add: handshake_def)
  have whole: "handshake fuel' nl hs type ec0 w0 = Some (ec', w', calls) \<longrightarrow>
            (case last calls of
               Next_layer_read_some b n e \<Rightarrow> e \<noteq> 0 \<and> ec' = e
             | Net_write b n e \<Rightarrow> e \<noteq> 0 \<and> ec' = e
             | Handshake_step s \<Rightarrow>
                 s = error \<and> ec' = handshake_last_error hs w'
                 \<or> s = done
                   \<and> (ec0 = 0 \<or> fst (handshake_step hs (handshake_init hs type w0)) \<noteq> done
                        \<longrightarrow> ec' = 0)
             | _ \<Rightarrow> False)"
    by (rule impI) (rule handshake_result)
  from iter entry whole show ?thesis by (intro conjI) blast+
qed

theorem handshake_behaviour_witness:
  "writes_all recording_next_layer
   \<and> handshake (Suc (Suc (Suc 0))) recording_next_layer scripted_handshake client 5
        (quiet [data_available, data_needed])
     = Some (0, (quiet [])\<lparr>sent := 7, flushed := 7, received := 5, committed := 5\<rparr>,
             [Handshake_init client,
              Handshake_step data_available,
              Net_write [\<lparr>buffer_data = 16, buffer_len = 7\<rparr>] 7 0,
              Handshake_size_written 7,
              Handshake_step data_needed,
              Next_layer_read_some [\<lparr>buffer_data = 0, buffer_len = 16\<rparr>] 5 0,
              Handshake_size_read 5,
              Handshake_step done])
   \<and> handshake (Suc 0) recording_next_layer scripted_handshake server 0
        ((quiet [data_needed])\<lparr>read_result := 104\<rparr>)
     = Some (104, (quiet [])\<lparr>read_result := 104\<rparr>,
             [Handshake_init server,
              Handshake_step data_needed,
              Next_layer_read_some [\<lparr>buffer_data = 0, buffer_len = 16\<rparr>] 0 104])
   \<and> handshake (Suc 0) recording_next_layer scripted_handshake server 0
        ((quiet [error])\<lparr>driver_error := 9\<rparr>)
     = Some (9, (quiet [])\<lparr>driver_error := 9\<rparr>,
             [Handshake_init server, Handshake_step error])"
proof -
  let ?w = "quiet [data_available, data_needed]"
  let ?w1 = "quiet [data_needed]"
  let ?w3 = "(quiet [data_needed])\<lparr>sent := 7\<rparr>"
  let ?v = "(quiet [data_needed])\<lparr>sent := 7, flushed := 7\<rparr>"
  let ?v1 = "(quiet [])\<lparr>sent := 7, flushed := 7\<rparr>"
  let ?v2 = "(quiet [])\<lparr>sent := 7, flushed := 7, received := 5\<rparr>"
  let ?u = "(quiet [])\<lparr>sent := 7, flushed := 7, received := 5, committed := 5\<rparr>"
  let ?y = "(quiet [data_needed])\<lparr>read_result := 104\<rparr>"
  let ?y1 = "(quiet [])\<lparr>read_result := 104\<rparr>"
  let ?x = "(quiet [error])\<lparr>driver_error := 9\<rparr>"
  let ?x1 = "(quiet [])\<lparr>driver_error := 9\<rparr>"
  have wa: "writes_all recording_next_layer"
    by (auto simp: writes_all_def recording_next_layer_def split: if_splits)
  have s1: "handshake_step scripted_handshake ?w = (data_available, ?w1)"
    by (simp add: scripted_defs)
  have r1: "next_layer_read_some recording_next_layer (in_buffer scripted_handshake ?w1) ?w1
              = (5, 0, ?w1\<lparr>received := 5\<rparr>)"
    by (simp add: scripted_defs recording_defs)
  have n1: "net_write recording_next_layer (out_buffer scripted_handshake ?w1) ?w1
              = (7, 0, ?w3)"
    by (simp add: scripted_defs recording_defs)
  have s2: "handshake_step scripted_handshake ?v = (data_needed, ?v1)"
    by (simp add: scripted_defs)
  have r2: "next_layer_read_some recording_next_layer (in_buffer scripted_handshake ?v1) ?v1
              = (5, 0, ?v2)"
    by (simp add: scripted_defs recording_defs)
  have n2: "net_write recording_next_layer (out_buffer scripted_handshake ?v1) ?v1
              = (7, 0, ?v1\<lparr>sent := 14\<rparr>)"
    by (simp add: scripted_defs recording_defs)
  have s3: "handshake_step scripted_handshake ?u = (done, ?u)"
    by (simp add: scripted_defs)
  have r3: "next_layer_read_some recording_next_layer (in_buffer scripted_handshake ?u) ?u
              = (5, 0, ?u\<lparr>received := 10\<rparr>)"
    by (simp add: scripted_defs recording_defs)
  have n3: "net_write recording_next_layer (out_buffer scripted_handshake ?u) ?u
              = (7, 0, ?u\<lparr>sent := 14\<rparr>)"
    by (simp add: scripted_defs recording_defs)
  have sy: "handshake_step scripted_handshake ?y = (data_needed, ?y1)"
    by (simp add: scripted_defs)
  have ry: "next_layer_read_some recording_next_layer (in_buffer scripted_handshake ?y1) ?y1
              = (0, 104, ?y1)"
    by (simp add: scripted_defs recording_defs)
  have ny: "net_write recording_next_layer (out_buffer scripted_handshake ?y1) ?y1
              = (7, 0, ?y1\<lparr>sent := 7\<rparr>)"
    by (simp add: scripted_defs recording_defs)
  have sx: "handshake_step scripted_handshake ?x = (error, ?x1)"
    by (simp add: scripted_defs)
  have rx: "next_layer_read_some recording_next_layer (in_buffer scripted_handshake ?x1) ?x1
              = (5, 0, ?x1\<lparr>received := 5\<rparr>)"
    by (simp add: scripted_defs recording_defs)
  have nx: "net_write recording_next_layer (out_buffer scripted_handshake ?x1) ?x1
              = (7, 0, ?x1\<lparr>sent := 7\<rparr>)"
    by (simp add: scripted_defs recording_defs)
  have third: "handshake_loop (Suc 0) recording_next_layer scripted_handshake 0 ?u
      = Some (0, ?u, [Handshake_step done])"
    using handshake_behaviour[OF s3 r3 n3, where fuel = 0 and ec = 0] by blast
  have second: "handshake_loop (Suc (Suc 0)) recording_next_layer scripted_handshake 0 ?v
      = Some (0, ?u,
              [Handshake_step data_needed,
               Next_layer_read_some [\<lparr>buffer_data = 0, buffer_len = 16\<rparr>] 5 0,
               Handshake_size_read 5,
               Handshake_step done])"
    using handshake_behaviour[OF s2 r2 n2, where fuel = "Suc 0" and ec = 0] third
    by (simp add: scripted_defs)
  have first: "handshake_loop (Suc (Suc (Suc 0))) recording_next_layer scripted_handshake 5 ?w
      = Some (0, ?u,
              [Handshake_step data_available,
               Net_write [\<lparr>buffer_data = 16, buffer_len = 7\<rparr>] 7 0,
               Handshake_size_written 7,
               Handshake_step data_needed,
               Next_layer_read_some [\<lparr>buffer_data = 0, buffer_len = 16\<rparr>] 5 0,
               Handshake_size_read 5,
               Handshake_step done])"
    using handshake_behaviour[OF s1 r1 n1, where fuel = "Suc (Suc 0)" and ec = 5] second
    by (simp add: scripted_defs)
  have whole: "handshake (Suc (Suc (Suc 0))) recording_next_layer scripted_handshake client 5 ?w
      = Some (0, ?u,
              [Handshake_init client,
               Handshake_step data_available,
               Net_write [\<lparr>buffer_data = 16, buffer_len = 7\<rparr>] 7 0,
               Handshake_size_written 7,
               Handshake_step data_needed,
               Next_layer_read_some [\<lparr>buffer_data = 0, buffer_len = 16\<rparr>] 5 0,
               Handshake_size_read 5,
               Handshake_step done])"
    using handshake_behaviour[OF s1 r1 n1, where fuel' = "Suc (Suc (Suc 0))" and type = client
            and ?ec0.0 = 5 and ?w0.0 = ?w] first
    by (simp add: scripted_defs)
  have failed: "handshake (Suc 0) recording_next_layer scripted_handshake server 0 ?y
      = Some (104, ?y1,
              [Handshake_init server,
               Handshake_step data_needed,
               Next_layer_read_some [\<lparr>buffer_data = 0, buffer_len = 16\<rparr>] 0 104])"
    using handshake_behaviour[OF sy ry ny, where fuel = 0 and ec = 0 and fuel' = "Suc 0"
            and type = server and ?ec0.0 = 0 and ?w0.0 = ?y]
    by (simp add: scripted_defs)
  have latched: "handshake (Suc 0) recording_next_layer scripted_handshake server 0 ?x
      = Some (9, ?x1, [Handshake_init server, Handshake_step error])"
    using handshake_behaviour[OF sx rx nx, where fuel = 0 and ec = 0 and fuel' = "Suc 0"
            and type = server and ?ec0.0 = 0 and ?w0.0 = ?x]
    by (simp add: scripted_defs)
  from wa whole failed latched show ?thesis by blast
qed

subsection \<open>The asynchronous handshake\<close>

lemma loop_cases:
  "async_handshake_loop hs ec len a w pre = Some (a1, w1, calls) \<Longrightarrow>
     (\<exists>b. calls = pre @ [Handshake_step data_needed, Next_layer_async_read_some b]
          \<and> a1 = a\<lparr>coro := Coro_yield_read\<rparr>)
   \<or> (\<exists>b. calls = pre @ [Handshake_step data_available, Net_async_write b]
          \<and> a1 = a\<lparr>coro := Coro_yield_write\<rparr>)
   \<or> (\<exists>mid. calls = pre @ mid @ [Net_post ec len] \<and> \<not> is_continuation a
          \<and> a1 = a\<lparr>coro := Coro_yield_post\<rparr>
          \<and> (mid = [Handshake_step error] \<or> mid = [Handshake_step done, Handshake_manual_auth]))
   \<or> (\<exists>mid e. calls = pre @ mid @ [Complete e] \<and> is_continuation a
          \<and> a1 = a\<lparr>coro := Coro_complete\<rparr>
          \<and> (mid = [Handshake_step error] \<or> mid = [Handshake_step done, Handshake_manual_auth]))"
  by (auto simp: async_handshake_loop_def async_handshake_finish_def
           split: prod.splits state.splits if_splits)

lemma call_cases:
  assumes "async_handshake_call hs 0 len a w = Some (a1, w1, calls)"
    and "coro a \<noteq> Coro_complete"
  shows "entry_count a1 = entry_count a + 1 \<and>
    ((\<exists>pre b. calls = pre @ [Next_layer_async_read_some b] \<and> silent pre
         \<and> coro a1 = Coro_yield_read)
   \<or> (\<exists>pre b. calls = pre @ [Net_async_write b] \<and> silent pre \<and> coro a1 = Coro_yield_write)
   \<or> (\<exists>pre. calls = pre @ [Net_post 0 len] \<and> silent pre \<and> coro a1 = Coro_yield_post
         \<and> entry_count a1 \<le> 1)
   \<or> (\<exists>pre e. calls = pre @ [Complete e] \<and> silent pre \<and> coro a1 = Coro_complete
         \<and> (coro a = Coro_yield_post \<or> entry_count a1 > 1)))"
proof (cases "coro a")
  case Coro_start
  with assms have "async_handshake_loop hs 0 len (a\<lparr>entry_count := entry_count a + 1\<rparr>) w [] = Some (a1, w1, calls)"
    by (auto simp: async_handshake_call_def Let_def split: if_splits)
  from loop_cases[OF this] show ?thesis
    by (auto simp: silent_def is_continuation_def)
next
  case Coro_yield_read
  with assms have "async_handshake_loop hs 0 len (a\<lparr>entry_count := entry_count a + 1\<rparr>)
      (handshake_size_read hs len w) [Handshake_size_read len] = Some (a1, w1, calls)"
    by (auto simp: async_handshake_call_def Let_def split: if_splits)
  from loop_cases[OF this] show ?thesis
    by (auto simp: silent_def is_continuation_def)
next
  case Coro_yield_write
  with assms have "async_handshake_loop hs 0 len (a\<lparr>entry_count := entry_count a + 1\<rparr>)
      (handshake_size_written hs len w) [Handshake_size_written len] = Some (a1, w1, calls)"
    by (auto simp: async_handshake_call_def Let_def split: if_splits)
  from loop_cases[OF this] show ?thesis
    by (auto simp: silent_def is_continuation_def)
next
  case Coro_yield_post
  with assms show ?thesis
    by (auto simp: async_handshake_call_def Let_def silent_def split: if_splits)
next
  case Coro_complete
  with assms show ?thesis by simp
qed

lemma silent_count: "silent pre \<Longrightarrow> filter is_complete pre = []"
  by (induction pre) (auto simp: silent_def)

lemma run_completes_once:
  "async_handshake_run fuel nl hs ec len a w = Some (a', w', entries) \<Longrightarrow>
   (ec = 0 \<longrightarrow> coro a \<noteq> Coro_complete) \<Longrightarrow>
     length (filter is_complete (concat entries)) = 1"
proof (induction fuel arbitrary: ec len a w a' w' entries)
  case 0
  then show ?case by simp
next
  case (Suc fuel)
  show ?case
  proof (cases "ec = 0")
    case False
    with Suc.prems show ?thesis by (auto simp: async_handshake_call_def)
  next
    case True
    with Suc.prems obtain a1 w1 calls where
      call: "async_handshake_call hs 0 len a w = Some (a1, w1, calls)"
      by (auto split: option.splits)
    from Suc.prems True have nc: "coro a \<noteq> Coro_complete" by simp
    from call_cases[OF call nc] consider
        (rd) pre b where "calls = pre @ [Next_layer_async_read_some b]" "silent pre" "coro a1 = Coro_yield_read"
      | (wr) pre b where "calls = pre @ [Net_async_write b]" "silent pre" "coro a1 = Coro_yield_write"
      | (post) pre where "calls = pre @ [Net_post 0 len]" "silent pre" "coro a1 = Coro_yield_post"
      | (compl) pre e where "calls = pre @ [Complete e]" "silent pre"
      by blast
    then show ?thesis
    proof cases
      case rd
      obtain ec1 n w2 where io: "next_layer_async_read_some nl b w1 = (ec1, n, w2)"
        by (cases "next_layer_async_read_some nl b w1")
      with Suc.prems(1) True call rd obtain entries0 where
        rec: "async_handshake_run fuel nl hs ec1 n a1 w2 = Some (a', w', entries0)"
        and en: "entries = calls # entries0"
        by auto
      from rd have "ec1 = 0 \<longrightarrow> coro a1 \<noteq> Coro_complete" by simp
      from Suc.IH[OF rec this] en rd show ?thesis by (simp add: silent_count)
    next
      case wr
      obtain ec1 n w2 where io: "net_async_write nl b w1 = (ec1, n, w2)"
        by (cases "net_async_write nl b w1")
      with Suc.prems(1) True call wr obtain entries0 where
        rec: "async_handshake_run fuel nl hs ec1 n a1 w2 = Some (a', w', entries0)"
        and en: "entries = calls # entries0"
        by auto
      from wr have "ec1 = 0 \<longrightarrow> coro a1 \<noteq> Coro_complete" by simp
      from Suc.IH[OF rec this] en wr show ?thesis by (simp add: silent_count)
    next
      case post
      with Suc.prems(1) True call obtain entries0 where
        rec: "async_handshake_run fuel nl hs 0 len a1 w1 = Some (a', w', entries0)"
        and en: "entries = calls # entries0"
        by auto
      from post have "(0::int) = 0 \<longrightarrow> coro a1 \<noteq> Coro_complete" by simp
      from Suc.IH[OF rec this] en post show ?thesis by (simp add: silent_count)
    next
      case compl
      with Suc.prems(1) True call have "entries = [calls]" by auto
      with compl show ?thesis by (simp add: silent_count)
    qed
  qed
qed

lemma continuation_run:
  "async_handshake_run fuel nl hs ec len a w = Some (a', w', entries) \<Longrightarrow>
   entry_count a \<ge> 1 \<Longrightarrow> coro a = Coro_yield_read \<or> coro a = Coro_yield_write \<Longrightarrow>
     entries \<noteq> [] \<and> \<not> list_ex is_post (concat entries)
     \<and> (\<exists>pre e. last entries = pre @ [Complete e])"
proof (induction fuel arbitrary: ec len a w a' w' entries)
  case 0
  then show ?case by simp
next
  case (Suc fuel)
  show ?case
  proof (cases "ec = 0")
    case False
    with Suc.prems show ?thesis by (auto simp: async_handshake_call_def)
  next
    case True
    with Suc.prems obtain a1 w1 calls where
      call: "async_handshake_call hs 0 len a w = Some (a1, w1, calls)"
      by (auto split: option.splits)
    from Suc.prems have nc: "coro a \<noteq> Coro_complete" by auto
    from call_cases[OF call nc] Suc.prems(2) have cnt: "entry_count a1 \<ge> 1" "entry_count a1 > 1"
      by auto
    from call_cases[OF call nc] cnt consider
        (rd) pre b where "calls = pre @ [Next_layer_async_read_some b]" "silent pre" "coro a1 = Coro_yield_read"
      | (wr) pre b where "calls = pre @ [Net_async_write b]" "silent pre" "coro a1 = Coro_yield_write"
      | (compl) pre e where "calls = pre @ [Complete e]" "silent pre"
      by force
    then show ?thesis
    proof cases
      case rd
      obtain ec1 n w2 where io: "next_layer_async_read_some nl b w1 = (ec1, n, w2)"
        by (cases "next_layer_async_read_some nl b w1")
      with Suc.prems(1) True call rd obtain entries0 where
        rec: "async_handshake_run fuel nl hs ec1 n a1 w2 = Some (a', w', entries0)"
        and en: "entries = calls # entries0"
        by auto
      from rd have "coro a1 = Coro_yield_read \<or> coro a1 = Coro_yield_write" by simp
      from Suc.IH[OF rec cnt(1) this] en rd show ?thesis by (simp add: silent_def)
    next
      case wr
      obtain ec1 n w2 where io: "net_async_write nl b w1 = (ec1, n, w2)"
        by (cases "net_async_write nl b w1")
      with Suc.prems(1) True call wr obtain entries0 where
        rec: "async_handshake_run fuel nl hs ec1 n a1 w2 = Some (a', w', entries0)"
        and en: "entries = calls # entries0"
        by auto
      from wr have "coro a1 = Coro_yield_read \<or> coro a1 = Coro_yield_write" by simp
      from Suc.IH[OF rec cnt(1) this] en wr show ?thesis by (simp add: silent_def)
    next
      case compl
      with Suc.prems(1) True call have "entries = [calls]" by auto
      with compl show ?thesis by (simp add: silent_def)
    qed
  qed
qed

lemma async_handshake_run_shape:
  assumes step: "handshake_step hs (handshake_init hs type w) = (st, w1)"
    and run: "async_handshake_op fuel nl hs type w = Some (a', w', entries)"
  shows "\<not> list_ex is_complete (hd entries)
       \<and> (st = data_needed \<or> st = data_available \<longrightarrow>
            list_ex is_transport_io (hd entries)
            \<and> \<not> list_ex is_post (concat entries)
            \<and> (\<exists>pre e. last entries = pre @ [Complete e]))"
proof -
  let ?w0 = "handshake_init hs type w"
  from run obtain fuel1 where f1: "fuel = Suc fuel1"
    by (cases fuel) (auto simp: async_handshake_op_def)
  from run obtain a1 v1 calls where
    call: "async_handshake_call hs 0 0 async_handshake_start ?w0 = Some (a1, v1, calls)"
    unfolding f1 by (auto simp: async_handshake_op_def split: option.splits)
  have start: "coro async_handshake_start \<noteq> Coro_complete" "entry_count async_handshake_start = 0"
    by (simp_all add: async_handshake_start_def)
  from call_cases[OF call start(1)] start(2) consider
      (rd) pre b where "calls = pre @ [Next_layer_async_read_some b]" "silent pre"
    | (wr) pre b where "calls = pre @ [Net_async_write b]" "silent pre"
    | (post) pre where "calls = pre @ [Net_post 0 0]" "silent pre"
    by (auto simp: async_handshake_start_def)
  then have quiet_calls: "\<not> list_ex is_complete calls"
    by cases (auto simp: silent_def)
  from run call have hd: "hd entries = calls"
    unfolding f1
    by (auto simp: async_handshake_op_def split: list.splits call.splits prod.splits)
  have io: "list_ex is_transport_io (hd entries)
            \<and> \<not> list_ex is_post (concat entries)
            \<and> (\<exists>pre e. last entries = pre @ [Complete e])"
    if st: "st = data_needed \<or> st = data_available"
  proof -
    define b1 where "b1 = \<lparr>coro = (if st = data_needed then Coro_yield_read else Coro_yield_write),
                           entry_count = 1\<rparr>"
    define cs where "cs = [Handshake_step st,
       if st = data_needed then Next_layer_async_read_some (in_buffer hs w1)
       else Net_async_write (out_buffer hs w1)]"
    have call': "async_handshake_call hs 0 0 async_handshake_start ?w0 = Some (b1, w1, cs)"
      using step st
      by (auto simp: async_handshake_start_def async_handshake_call_def
            async_handshake_loop_def b1_def cs_def)
    obtain ec1 n w2 where res:
      "(if st = data_needed then next_layer_async_read_some nl (in_buffer hs w1) w1
        else net_async_write nl (out_buffer hs w1) w1) = (ec1, n, w2)"
      by (cases "if st = data_needed then next_layer_async_read_some nl (in_buffer hs w1) w1
        else net_async_write nl (out_buffer hs w1) w1")
    from run call' res st obtain entries0 where
      rec: "async_handshake_run fuel1 nl hs ec1 n b1 w2 = Some (a', w', entries0)"
      and en: "entries = cs # entries0"
      unfolding f1 by (auto simp: async_handshake_op_def cs_def split: if_splits)
    have "entry_count b1 \<ge> 1" "coro b1 = Coro_yield_read \<or> coro b1 = Coro_yield_write"
      by (simp_all add: b1_def)
    from continuation_run[OF rec this] en st show ?thesis
      by (auto simp: cs_def)
  qed
  from quiet_calls hd io show ?thesis by simp
qed

text \<open>
  C6. The initiating call of the asynchronous handshake never completes the caller:
  it yields on a transport operation, or posts the operation, or, when the driver
  reports \<^verbatim>\<open>done\<close> with an error latched, stops at the failed assertion. When the
  driver reports \<^verbatim>\<open>error\<close>, or \<^verbatim>\<open>done\<close> with no error latched, at its first step,
  the run is the initiating call, which ends by posting the operation, and the posted
  call, which completes the caller with the driver's \<^verbatim>\<open>last_error()\<close>. When the first
  step asks for transport I/O, the run goes on with the result of the transport, and
  so does every later entry that is asked for I/O; a later entry at which the driver
  reports \<^verbatim>\<open>error\<close>, or \<^verbatim>\<open>done\<close> with no error latched, completes the caller itself,
  without a post, and ends the run, and one at which it reports \<^verbatim>\<open>done\<close> with an
  error latched stops at the failed assertion. A run that ends after transport I/O
  has never posted and its last entry completes the caller.
\<close>

theorem async_handshake_completion:
  assumes step: "handshake_step hs (handshake_init hs type w) = (st, w1)"
    and cont: "coro a = Coro_yield_read \<or> coro a = Coro_yield_write"
    and cnt: "1 \<le> entry_count a" "entry_count a < 2147483647"
    and cstep: "handshake_step hs (if coro a = Coro_yield_read then handshake_size_read hs len v
                                   else handshake_size_written hs len v) = (st', v1)"
    and commit: "commit = (if coro a = Coro_yield_read then Handshake_size_read len
                           else Handshake_size_written len)"
  shows "(st = done \<and> handshake_last_error hs w1 \<noteq> 0 \<longrightarrow>
            async_handshake_call hs 0 0 async_handshake_start (handshake_init hs type w) = None)
       \<and> (\<not> (st = done \<and> handshake_last_error hs w1 \<noteq> 0) \<longrightarrow>
            (\<exists>a1 w2 calls.
               async_handshake_call hs 0 0 async_handshake_start (handshake_init hs type w)
                 = Some (a1, w2, calls)
               \<and> \<not> list_ex is_complete calls))
       \<and> (st = error \<or> st = done \<and> handshake_last_error hs w1 = 0 \<longrightarrow>
            async_handshake_op (Suc (Suc fuel)) nl hs type w
              = Some (\<lparr>coro = Coro_complete, entry_count = 2\<rparr>,
                      (if st = done then manual_auth hs w1 else w1),
                      [Handshake_step st
                       # (if st = done then [Handshake_manual_auth] else [])
                       @ [Net_post 0 0],
                       [Complete (handshake_last_error hs
                                    (if st = done then manual_auth hs w1 else w1))]]))
       \<and> (st = data_needed \<longrightarrow>
            async_handshake_op (Suc fuel) nl hs type w
              = (case next_layer_async_read_some nl (in_buffer hs w1) w1 of
                   (ec1, n, w2) \<Rightarrow>
                     map_option
                       (\<lambda>(a', w', entries).
                          (a', w',
                           [Handshake_step data_needed,
                            Next_layer_async_read_some (in_buffer hs w1)] # entries))
                       (async_handshake_run fuel nl hs ec1 n
                          \<lparr>coro = Coro_yield_read, entry_count = 1\<rparr> w2)))
       \<and> (st = data_available \<longrightarrow>
            async_handshake_op (Suc fuel) nl hs type w
              = (case net_async_write nl (out_buffer hs w1) w1 of
                   (ec1, n, w2) \<Rightarrow>
                     map_option
                       (\<lambda>(a', w', entries).
                          (a', w',
                           [Handshake_step data_available,
                            Net_async_write (out_buffer hs w1)] # entries))
                       (async_handshake_run fuel nl hs ec1 n
                          \<lparr>coro = Coro_yield_write, entry_count = 1\<rparr> w2)))
       \<and> (st' = error \<longrightarrow>
            async_handshake_run (Suc fuel) nl hs 0 len a v
              = Some (a\<lparr>entry_count := entry_count a + 1, coro := Coro_complete\<rparr>, v1,
                      [[commit, Handshake_step error, Complete (handshake_last_error hs v1)]]))
       \<and> (st' = done \<and> handshake_last_error hs v1 = 0 \<longrightarrow>
            async_handshake_run (Suc fuel) nl hs 0 len a v
              = Some (a\<lparr>entry_count := entry_count a + 1, coro := Coro_complete\<rparr>,
                      manual_auth hs v1,
                      [[commit, Handshake_step done, Handshake_manual_auth,
                        Complete (handshake_last_error hs (manual_auth hs v1))]]))
       \<and> (st' = done \<and> handshake_last_error hs v1 \<noteq> 0 \<longrightarrow>
            async_handshake_run (Suc fuel) nl hs 0 len a v = None)
       \<and> (st' = data_needed \<longrightarrow>
            async_handshake_run (Suc fuel) nl hs 0 len a v
              = (case next_layer_async_read_some nl (in_buffer hs v1) v1 of
                   (ec1, n, v2) \<Rightarrow>
                     map_option
                       (\<lambda>(a', w', entries).
                          (a', w',
                           [commit, Handshake_step data_needed,
                            Next_layer_async_read_some (in_buffer hs v1)] # entries))
                       (async_handshake_run fuel nl hs ec1 n
                          (a\<lparr>entry_count := entry_count a + 1, coro := Coro_yield_read\<rparr>) v2)))
       \<and> (st' = data_available \<longrightarrow>
            async_handshake_run (Suc fuel) nl hs 0 len a v
              = (case net_async_write nl (out_buffer hs v1) v1 of
                   (ec1, n, v2) \<Rightarrow>
                     map_option
                       (\<lambda>(a', w', entries).
                          (a', w',
                           [commit, Handshake_step data_available,
                            Net_async_write (out_buffer hs v1)] # entries))
                       (async_handshake_run fuel nl hs ec1 n
                          (a\<lparr>entry_count := entry_count a + 1, coro := Coro_yield_write\<rparr>) v2)))
       \<and> (async_handshake_op fuel' nl hs type w = Some (a', w', entries) \<longrightarrow>
            \<not> list_ex is_complete (hd entries)
            \<and> (st = data_needed \<or> st = data_available \<longrightarrow>
                 list_ex is_transport_io (hd entries)
                 \<and> \<not> list_ex is_post (concat entries)
                 \<and> (\<exists>pre e. last entries = pre @ [Complete e])))"
proof -
  have c1: "st = done \<and> handshake_last_error hs w1 \<noteq> 0 \<longrightarrow>
            async_handshake_call hs 0 0 async_handshake_start (handshake_init hs type w) = None"
    using step
    by (simp add: async_handshake_start_def async_handshake_call_def async_handshake_loop_def)
  have c2: "\<not> (st = done \<and> handshake_last_error hs w1 \<noteq> 0) \<longrightarrow>
            (\<exists>a1 w2 calls.
               async_handshake_call hs 0 0 async_handshake_start (handshake_init hs type w)
                 = Some (a1, w2, calls)
               \<and> \<not> list_ex is_complete calls)"
    using step
    by (cases st) (auto simp: async_handshake_start_def async_handshake_call_def
          async_handshake_loop_def async_handshake_finish_def is_continuation_def)
  have c3: "st = error \<or> st = done \<and> handshake_last_error hs w1 = 0 \<longrightarrow>
            async_handshake_op (Suc (Suc fuel)) nl hs type w
              = Some (\<lparr>coro = Coro_complete, entry_count = 2\<rparr>,
                      (if st = done then manual_auth hs w1 else w1),
                      [Handshake_step st
                       # (if st = done then [Handshake_manual_auth] else [])
                       @ [Net_post 0 0],
                       [Complete (handshake_last_error hs
                                    (if st = done then manual_auth hs w1 else w1))]])"
    using step
    by (auto simp: async_handshake_op_def async_handshake_start_def async_handshake_call_def
          async_handshake_loop_def async_handshake_finish_def is_continuation_def)
  have c4: "st = data_needed \<longrightarrow>
            async_handshake_op (Suc fuel) nl hs type w
              = (case next_layer_async_read_some nl (in_buffer hs w1) w1 of
                   (ec1, n, w2) \<Rightarrow>
                     map_option
                       (\<lambda>(a', w', entries).
                          (a', w',
                           [Handshake_step data_needed,
                            Next_layer_async_read_some (in_buffer hs w1)] # entries))
                       (async_handshake_run fuel nl hs ec1 n
                          \<lparr>coro = Coro_yield_read, entry_count = 1\<rparr> w2))"
    using step
    by (simp add: async_handshake_op_def async_handshake_start_def async_handshake_call_def
          async_handshake_loop_def)
  have c5: "st = data_available \<longrightarrow>
            async_handshake_op (Suc fuel) nl hs type w
              = (case net_async_write nl (out_buffer hs w1) w1 of
                   (ec1, n, w2) \<Rightarrow>
                     map_option
                       (\<lambda>(a', w', entries).
                          (a', w',
                           [Handshake_step data_available,
                            Net_async_write (out_buffer hs w1)] # entries))
                       (async_handshake_run fuel nl hs ec1 n
                          \<lparr>coro = Coro_yield_write, entry_count = 1\<rparr> w2))"
    using step
    by (simp add: async_handshake_op_def async_handshake_start_def async_handshake_call_def
          async_handshake_loop_def)
  have more: "is_continuation (a\<lparr>entry_count := entry_count a + 1\<rparr>)"
    using cnt by (simp add: is_continuation_def)
  have c6: "st' = error \<longrightarrow>
            async_handshake_run (Suc fuel) nl hs 0 len a v
              = Some (a\<lparr>entry_count := entry_count a + 1, coro := Coro_complete\<rparr>, v1,
                      [[commit, Handshake_step error, Complete (handshake_last_error hs v1)]])"
    using cont cnt cstep commit more
    by (auto simp: async_handshake_call_def async_handshake_loop_def async_handshake_finish_def)
  have c7: "st' = done \<and> handshake_last_error hs v1 = 0 \<longrightarrow>
            async_handshake_run (Suc fuel) nl hs 0 len a v
              = Some (a\<lparr>entry_count := entry_count a + 1, coro := Coro_complete\<rparr>,
                      manual_auth hs v1,
                      [[commit, Handshake_step done, Handshake_manual_auth,
                        Complete (handshake_last_error hs (manual_auth hs v1))]])"
    using cont cnt cstep commit more
    by (auto simp: async_handshake_call_def async_handshake_loop_def async_handshake_finish_def)
  have c7b: "st' = done \<and> handshake_last_error hs v1 \<noteq> 0 \<longrightarrow>
            async_handshake_run (Suc fuel) nl hs 0 len a v = None"
    using cont cnt cstep
    by (auto simp: async_handshake_call_def async_handshake_loop_def)
  have c8: "st' = data_needed \<longrightarrow>
            async_handshake_run (Suc fuel) nl hs 0 len a v
              = (case next_layer_async_read_some nl (in_buffer hs v1) v1 of
                   (ec1, n, v2) \<Rightarrow>
                     map_option
                       (\<lambda>(a', w', entries).
                          (a', w',
                           [commit, Handshake_step data_needed,
                            Next_layer_async_read_some (in_buffer hs v1)] # entries))
                       (async_handshake_run fuel nl hs ec1 n
                          (a\<lparr>entry_count := entry_count a + 1, coro := Coro_yield_read\<rparr>) v2))"
    using cont cnt cstep commit
    by (auto simp: async_handshake_call_def async_handshake_loop_def)
  have c9: "st' = data_available \<longrightarrow>
            async_handshake_run (Suc fuel) nl hs 0 len a v
              = (case net_async_write nl (out_buffer hs v1) v1 of
                   (ec1, n, v2) \<Rightarrow>
                     map_option
                       (\<lambda>(a', w', entries).
                          (a', w',
                           [commit, Handshake_step data_available,
                            Net_async_write (out_buffer hs v1)] # entries))
                       (async_handshake_run fuel nl hs ec1 n
                          (a\<lparr>entry_count := entry_count a + 1, coro := Coro_yield_write\<rparr>) v2))"
    using cont cnt cstep commit
    by (auto simp: async_handshake_call_def async_handshake_loop_def)
  have c10: "async_handshake_op fuel' nl hs type w = Some (a', w', entries) \<longrightarrow>
            \<not> list_ex is_complete (hd entries)
            \<and> (st = data_needed \<or> st = data_available \<longrightarrow>
                 list_ex is_transport_io (hd entries)
                 \<and> \<not> list_ex is_post (concat entries)
                 \<and> (\<exists>pre e. last entries = pre @ [Complete e]))"
    using async_handshake_run_shape[OF step] by blast
  from c1 c2 c3 c4 c5 c6 c7 c7b c8 c9 c10 show ?thesis by (intro conjI)
qed

theorem async_handshake_completion_witness:
  "async_handshake_op (Suc (Suc (Suc (Suc 0)))) recording_next_layer scripted_handshake client
       (quiet [data_available, data_needed, data_needed])
     = Some (\<lparr>coro = Coro_complete, entry_count = 4\<rparr>,
             (quiet [])\<lparr>sent := 7, flushed := 7, received := 10, committed := 10\<rparr>,
             [[Handshake_step data_available,
               Net_async_write [\<lparr>buffer_data = 16, buffer_len = 7\<rparr>]],
              [Handshake_size_written 7, Handshake_step data_needed,
               Next_layer_async_read_some [\<lparr>buffer_data = 0, buffer_len = 16\<rparr>]],
              [Handshake_size_read 5, Handshake_step data_needed,
               Next_layer_async_read_some [\<lparr>buffer_data = 0, buffer_len = 16\<rparr>]],
              [Handshake_size_read 5, Handshake_step done, Handshake_manual_auth, Complete 0]])
   \<and> async_handshake_op (Suc (Suc 0)) recording_next_layer scripted_handshake server
        ((quiet [error])\<lparr>driver_error := 9\<rparr>)
     = Some (\<lparr>coro = Coro_complete, entry_count = 2\<rparr>, (quiet [])\<lparr>driver_error := 9\<rparr>,
             [[Handshake_step error, Net_post 0 0], [Complete 9]])
   \<and> async_handshake_call scripted_handshake 0 0 async_handshake_start
        ((quiet [])\<lparr>driver_error := 9\<rparr>) = None"
proof -
  let ?w = "quiet [data_available, data_needed, data_needed]"
  let ?a2 = "\<lparr>coro = Coro_yield_write, entry_count = 1\<rparr>"
  let ?v2 = "(quiet [data_needed, data_needed])\<lparr>sent := 7\<rparr>"
  let ?a3 = "\<lparr>coro = Coro_yield_read, entry_count = 2\<rparr>"
  let ?v3 = "(quiet [data_needed])\<lparr>sent := 7, flushed := 7, received := 5\<rparr>"
  let ?a4 = "\<lparr>coro = Coro_yield_read, entry_count = 3\<rparr>"
  let ?v4 = "(quiet [])\<lparr>sent := 7, flushed := 7, received := 10, committed := 5\<rparr>"
  let ?end = "(quiet [])\<lparr>sent := 7, flushed := 7, received := 10, committed := 10\<rparr>"
  let ?x = "(quiet [error])\<lparr>driver_error := 9\<rparr>"
  let ?y = "(quiet [])\<lparr>driver_error := 9\<rparr>"
  have s1: "handshake_step scripted_handshake (handshake_init scripted_handshake client ?w)
              = (data_available, quiet [data_needed, data_needed])"
    by (simp add: scripted_defs)
  have sx: "handshake_step scripted_handshake (handshake_init scripted_handshake server ?x)
              = (error, ?y)"
    by (simp add: scripted_defs)
  have sy: "handshake_step scripted_handshake (handshake_init scripted_handshake server ?y)
              = (done, ?y)"
    by (simp add: scripted_defs)
  have c2: "coro ?a2 = Coro_yield_read \<or> coro ?a2 = Coro_yield_write"
    and n2: "1 \<le> entry_count ?a2" "entry_count ?a2 < 2147483647"
    and c3: "coro ?a3 = Coro_yield_read \<or> coro ?a3 = Coro_yield_write"
    and n3: "1 \<le> entry_count ?a3" "entry_count ?a3 < 2147483647"
    and c4: "coro ?a4 = Coro_yield_read \<or> coro ?a4 = Coro_yield_write"
    and n4: "1 \<le> entry_count ?a4" "entry_count ?a4 < 2147483647"
    by simp_all
  have t2: "handshake_step scripted_handshake
              (if coro ?a2 = Coro_yield_read then handshake_size_read scripted_handshake 7 ?v2
               else handshake_size_written scripted_handshake 7 ?v2)
              = (data_needed, (quiet [data_needed])\<lparr>sent := 7, flushed := 7\<rparr>)"
    by (simp add: scripted_defs)
  have t3: "handshake_step scripted_handshake
              (if coro ?a3 = Coro_yield_read then handshake_size_read scripted_handshake 5 ?v3
               else handshake_size_written scripted_handshake 5 ?v3)
              = (data_needed,
                 (quiet [])\<lparr>sent := 7, flushed := 7, received := 5, committed := 5\<rparr>)"
    by (simp add: scripted_defs)
  have t4: "handshake_step scripted_handshake
              (if coro ?a4 = Coro_yield_read then handshake_size_read scripted_handshake 5 ?v4
               else handshake_size_written scripted_handshake 5 ?v4)
              = (done, ?end)"
    by (simp add: scripted_defs)
  have m2: "Handshake_size_written 7
              = (if coro ?a2 = Coro_yield_read then Handshake_size_read 7
                 else Handshake_size_written 7)"
    and m3: "Handshake_size_read 5
              = (if coro ?a3 = Coro_yield_read then Handshake_size_read 5
                 else Handshake_size_written 5)"
    and m4: "Handshake_size_read 5
              = (if coro ?a4 = Coro_yield_read then Handshake_size_read 5
                 else Handshake_size_written 5)"
    by simp_all
  have e4: "async_handshake_run (Suc 0) recording_next_layer scripted_handshake 0 5 ?a4 ?v4
      = Some (\<lparr>coro = Coro_complete, entry_count = 4\<rparr>, ?end,
              [[Handshake_size_read 5, Handshake_step done, Handshake_manual_auth, Complete 0]])"
    using async_handshake_completion[OF s1 c4 n4 t4 m4, where fuel = 0
            and nl = recording_next_layer]
    by (simp add: scripted_defs)
  have e3: "async_handshake_run (Suc (Suc 0)) recording_next_layer scripted_handshake 0 5 ?a3 ?v3
      = Some (\<lparr>coro = Coro_complete, entry_count = 4\<rparr>, ?end,
              [[Handshake_size_read 5, Handshake_step data_needed,
                Next_layer_async_read_some [\<lparr>buffer_data = 0, buffer_len = 16\<rparr>]],
               [Handshake_size_read 5, Handshake_step done, Handshake_manual_auth, Complete 0]])"
    using async_handshake_completion[OF s1 c3 n3 t3 m3, where fuel = "Suc 0"
            and nl = recording_next_layer] e4
    by (simp add: scripted_defs recording_defs)
  have e2: "async_handshake_run (Suc (Suc (Suc 0))) recording_next_layer scripted_handshake
              0 7 ?a2 ?v2
      = Some (\<lparr>coro = Coro_complete, entry_count = 4\<rparr>, ?end,
              [[Handshake_size_written 7, Handshake_step data_needed,
                Next_layer_async_read_some [\<lparr>buffer_data = 0, buffer_len = 16\<rparr>]],
               [Handshake_size_read 5, Handshake_step data_needed,
                Next_layer_async_read_some [\<lparr>buffer_data = 0, buffer_len = 16\<rparr>]],
               [Handshake_size_read 5, Handshake_step done, Handshake_manual_auth, Complete 0]])"
    using async_handshake_completion[OF s1 c2 n2 t2 m2, where fuel = "Suc (Suc 0)"
            and nl = recording_next_layer] e3
    by (simp add: scripted_defs recording_defs)
  have e1: "async_handshake_op (Suc (Suc (Suc (Suc 0)))) recording_next_layer scripted_handshake
              client ?w
      = Some (\<lparr>coro = Coro_complete, entry_count = 4\<rparr>, ?end,
              [[Handshake_step data_available,
                Net_async_write [\<lparr>buffer_data = 16, buffer_len = 7\<rparr>]],
               [Handshake_size_written 7, Handshake_step data_needed,
                Next_layer_async_read_some [\<lparr>buffer_data = 0, buffer_len = 16\<rparr>]],
               [Handshake_size_read 5, Handshake_step data_needed,
                Next_layer_async_read_some [\<lparr>buffer_data = 0, buffer_len = 16\<rparr>]],
               [Handshake_size_read 5, Handshake_step done, Handshake_manual_auth, Complete 0]])"
    using async_handshake_completion[OF s1 c4 n4 t4 m4, where fuel = "Suc (Suc (Suc 0))"
            and nl = recording_next_layer] e2
    by (simp add: scripted_defs recording_defs)
  have posted: "async_handshake_op (Suc (Suc 0)) recording_next_layer scripted_handshake server ?x
      = Some (\<lparr>coro = Coro_complete, entry_count = 2\<rparr>, ?y,
              [[Handshake_step error, Net_post 0 0], [Complete 9]])"
    using async_handshake_completion[OF sx c4 n4 t4 m4, where fuel = 0
            and nl = recording_next_layer]
    by (simp add: scripted_defs)
  have aborted: "async_handshake_call scripted_handshake 0 0 async_handshake_start ?y = None"
    using async_handshake_completion[OF sy c4 n4 t4 m4]
    by (simp add: scripted_defs)
  from e1 posted aborted show ?thesis by blast
qed

text \<open>
  C7. When \<^verbatim>\<open>operator()\<close> is called with a non-zero error code it completes the caller
  with that code and does nothing else: no driver call, no change of the operation
  or of the state, and no further entry. Every run of the operation that ends
  completes the caller exactly once.
\<close>

theorem async_handshake_transport_error:
  assumes "ec \<noteq> 0"
  shows "async_handshake_call hs ec len a w = Some (a, w, [Complete ec])
       \<and> async_handshake_run (Suc fuel) nl hs ec len a w = Some (a, w, [[Complete ec]])
       \<and> (async_handshake_op fuel' nl hs type w0 = Some (a', w', entries)
            \<longrightarrow> length (filter is_complete (concat entries)) = 1)"
proof -
  have one: "async_handshake_call hs ec len a w = Some (a, w, [Complete ec])"
    using assms by (simp add: async_handshake_call_def)
  then have two: "async_handshake_run (Suc fuel) nl hs ec len a w = Some (a, w, [[Complete ec]])"
    by simp
  have "length (filter is_complete (concat entries)) = 1"
    if "async_handshake_op fuel' nl hs type w0 = Some (a', w', entries)"
    using run_completes_once[OF that[unfolded async_handshake_op_def]]
    by (simp add: async_handshake_start_def)
  with one two show ?thesis by blast
qed

theorem async_handshake_transport_error_witness:
  "async_handshake_call scripted_handshake 104 0 \<lparr>coro = Coro_yield_read, entry_count = 1\<rparr>
       ((quiet [])\<lparr>read_result := 104\<rparr>)
     = Some (\<lparr>coro = Coro_yield_read, entry_count = 1\<rparr>, (quiet [])\<lparr>read_result := 104\<rparr>,
             [Complete 104])
   \<and> async_handshake_op (Suc (Suc 0)) scripted_next_layer scripted_handshake server
        ((quiet [data_needed])\<lparr>read_result := 104\<rparr>)
     = Some (\<lparr>coro = Coro_yield_read, entry_count = 1\<rparr>, (quiet [])\<lparr>read_result := 104\<rparr>,
             [[Handshake_step data_needed,
               Next_layer_async_read_some [\<lparr>buffer_data = 0, buffer_len = 16\<rparr>]],
              [Complete 104]])
   \<and> length (filter is_complete (concat
        [[Handshake_step data_needed,
          Next_layer_async_read_some [\<lparr>buffer_data = 0, buffer_len = 16\<rparr>]],
         [Complete 104]])) = 1"
proof -
  have ne: "(104::int) \<noteq> 0" by simp
  have run: "async_handshake_op (Suc (Suc 0)) scripted_next_layer scripted_handshake server
        ((quiet [data_needed])\<lparr>read_result := 104\<rparr>)
     = Some (\<lparr>coro = Coro_yield_read, entry_count = 1\<rparr>, (quiet [])\<lparr>read_result := 104\<rparr>,
             [[Handshake_step data_needed,
               Next_layer_async_read_some [\<lparr>buffer_data = 0, buffer_len = 16\<rparr>]],
              [Complete 104]])"
    by (simp add: scripted_defs async_handshake_op_def async_handshake_start_def
          async_handshake_call_def async_handshake_loop_def async_handshake_finish_def
          is_continuation_def)
  from async_handshake_transport_error[OF ne, where hs = scripted_handshake and len = 0
         and a = "\<lparr>coro = Coro_yield_read, entry_count = 1\<rparr>"
         and w = "(quiet [])\<lparr>read_result := 104\<rparr>" and fuel = 0
         and nl = scripted_next_layer and fuel' = "Suc (Suc 0)" and type = server
         and ?w0.0 = "(quiet [data_needed])\<lparr>read_result := 104\<rparr>"]
    run
  show ?thesis by simp
qed

subsection \<open>The status \<^verbatim>\<open>done\<close> and the latched error\<close>

lemma handshake_loop_last_step:
  "handshake_loop fuel nl hs ec w = Some (ec', w', calls) \<Longrightarrow>
   last calls = Handshake_step s \<Longrightarrow> \<exists>v. handshake_step hs v = (s, w')"
proof (induction fuel arbitrary: ec w calls)
  case 0
  then show ?case by simp
next
  case (Suc fuel)
  obtain st w1 where st: "handshake_step hs w = (st, w1)" by (cases "handshake_step hs w")
  obtain n e w2 where rd: "next_layer_read_some nl (in_buffer hs w1) w1 = (n, e, w2)"
    by (cases "next_layer_read_some nl (in_buffer hs w1) w1")
  obtain m e' w3 where wr: "net_write nl (out_buffer hs w1) w1 = (m, e', w3)"
    by (cases "net_write nl (out_buffer hs w1) w1")
  consider (needed) "st = data_needed" | (available) "st = data_available"
    | (finished) "st = done" | (failed) "st = error"
    by (cases st) auto
  then show ?case
  proof cases
    case needed
    show ?thesis
    proof (cases "e = 0")
      case True
      with Suc.prems st rd needed obtain calls0 where
        rec: "handshake_loop fuel nl hs 0 (handshake_size_read hs n w2) = Some (ec', w', calls0)"
        and c: "calls = Handshake_step st # Next_layer_read_some (in_buffer hs w1) n e
                        # Handshake_size_read n # calls0"
        by auto
      from handshake_loop_head[OF rec] have "calls0 \<noteq> []" by simp
      with c Suc.prems(2) have "last calls0 = Handshake_step s" by simp
      from Suc.IH[OF rec this] show ?thesis .
    next
      case False
      with Suc.prems st rd needed show ?thesis by auto
    qed
  next
    case available
    show ?thesis
    proof (cases "e' = 0")
      case True
      with Suc.prems st wr available obtain calls0 where
        rec: "handshake_loop fuel nl hs 0 (handshake_size_written hs m w3) = Some (ec', w', calls0)"
        and c: "calls = Handshake_step st # Net_write (out_buffer hs w1) m e'
                        # Handshake_size_written m # calls0"
        by auto
      from handshake_loop_head[OF rec] have "calls0 \<noteq> []" by simp
      with c Suc.prems(2) have "last calls0 = Handshake_step s" by simp
      from Suc.IH[OF rec this] show ?thesis .
    next
      case False
      with Suc.prems st wr available show ?thesis by auto
    qed
  next
    case finished
    with Suc.prems st show ?thesis by auto
  next
    case failed
    with Suc.prems st show ?thesis by auto
  qed
qed

lemma continuation_entry:
  assumes call: "async_handshake_call hs 0 len a w = Some (a1, w1, calls)"
    and cont: "coro a = Coro_yield_read \<or> coro a = Coro_yield_write"
    and cnt: "1 \<le> entry_count a"
  shows "(\<exists>pre b. calls = pre @ [Next_layer_async_read_some b]
            \<and> Handshake_step done \<notin> set pre
            \<and> coro a1 = Coro_yield_read \<and> 1 \<le> entry_count a1)
       \<or> (\<exists>pre b. calls = pre @ [Net_async_write b]
            \<and> Handshake_step done \<notin> set pre
            \<and> coro a1 = Coro_yield_write \<and> 1 \<le> entry_count a1)
       \<or> (\<exists>pre e. calls = pre @ [Complete e] \<and> Handshake_step done \<notin> set pre)
       \<or> (\<exists>pre v v1. calls = pre @ [Complete (handshake_last_error hs (manual_auth hs v1))]
            \<and> handshake_step hs v = (done, v1))"
  using assms
  by (auto simp: async_handshake_call_def async_handshake_loop_def async_handshake_finish_def
        is_continuation_def Let_def
      split: if_splits prod.splits state.splits)


lemma continuation_run_done:
  assumes D: "\<And>v v1. handshake_step hs v = (done, v1)
                \<Longrightarrow> handshake_last_error hs (manual_auth hs v1) = 0"
  shows "async_handshake_run fuel nl hs ec len a w = Some (a', w', entries) \<Longrightarrow>
         1 \<le> entry_count a \<Longrightarrow> coro a = Coro_yield_read \<or> coro a = Coro_yield_write \<Longrightarrow>
         Handshake_step done \<in> set (concat entries) \<Longrightarrow>
           last (last entries) = Complete 0"
proof (induction fuel arbitrary: ec len a w entries)
  case 0
  then show ?case by simp
next
  case (Suc fuel)
  show ?case
  proof (cases "ec = 0")
    case False
    with Suc.prems show ?thesis by (auto simp: async_handshake_call_def)
  next
    case True
    with Suc.prems obtain a1 w1 calls where
      call: "async_handshake_call hs 0 len a w = Some (a1, w1, calls)"
      by (auto split: option.splits)
    from continuation_entry[OF call Suc.prems(3) Suc.prems(2)] consider
        (rd) pre b where "calls = pre @ [Next_layer_async_read_some b]"
          "Handshake_step done \<notin> set pre" "coro a1 = Coro_yield_read" "1 \<le> entry_count a1"
      | (wr) pre b where "calls = pre @ [Net_async_write b]"
          "Handshake_step done \<notin> set pre" "coro a1 = Coro_yield_write" "1 \<le> entry_count a1"
      | (other) pre e where "calls = pre @ [Complete e]" "Handshake_step done \<notin> set pre"
      | (finished) pre v v1 where
          "calls = pre @ [Complete (handshake_last_error hs (manual_auth hs v1))]"
          "handshake_step hs v = (done, v1)"
      by blast
    then show ?thesis
    proof cases
      case rd
      obtain ec1 n w2 where io: "next_layer_async_read_some nl b w1 = (ec1, n, w2)"
        by (cases "next_layer_async_read_some nl b w1")
      with Suc.prems(1) True call rd obtain entries0 where
        rec: "async_handshake_run fuel nl hs ec1 n a1 w2 = Some (a', w', entries0)"
        and en: "entries = calls # entries0"
        by auto
      from rd have c: "coro a1 = Coro_yield_read \<or> coro a1 = Coro_yield_write" by simp
      from continuation_run[OF rec rd(4) c] have ne: "entries0 \<noteq> []" by simp
      from Suc.prems(4) en rd have "Handshake_step done \<in> set (concat entries0)" by auto
      from Suc.IH[OF rec rd(4) c this] en ne show ?thesis by simp
    next
      case wr
      obtain ec1 n w2 where io: "net_async_write nl b w1 = (ec1, n, w2)"
        by (cases "net_async_write nl b w1")
      with Suc.prems(1) True call wr obtain entries0 where
        rec: "async_handshake_run fuel nl hs ec1 n a1 w2 = Some (a', w', entries0)"
        and en: "entries = calls # entries0"
        by auto
      from wr have c: "coro a1 = Coro_yield_read \<or> coro a1 = Coro_yield_write" by simp
      from continuation_run[OF rec wr(4) c] have ne: "entries0 \<noteq> []" by simp
      from Suc.prems(4) en wr have "Handshake_step done \<in> set (concat entries0)" by auto
      from Suc.IH[OF rec wr(4) c this] en ne show ?thesis by simp
    next
      case other
      with Suc.prems(1) True call have "entries = [calls]" by auto
      with other Suc.prems(4) show ?thesis by auto
    next
      case finished
      with Suc.prems(1) True call have "entries = [calls]" by auto
      with finished D show ?thesis by auto
    qed
  qed
qed

lemma async_handshake_op_done:
  assumes D: "\<And>v v1. handshake_step hs v = (done, v1)
                \<Longrightarrow> handshake_last_error hs (manual_auth hs v1) = 0"
    and first: "fst (handshake_step hs (handshake_init hs type w)) \<noteq> done"
    and run: "async_handshake_op fuel nl hs type w = Some (a', w', entries)"
    and reached: "Handshake_step done \<in> set (concat entries)"
  shows "last (last entries) = Complete 0"
proof -
  obtain st w1 where step: "handshake_step hs (handshake_init hs type w) = (st, w1)"
    by (cases "handshake_step hs (handshake_init hs type w)")
  from run obtain fuel1 where f1: "fuel = Suc fuel1"
    by (cases fuel) (auto simp: async_handshake_op_def)
  from first step consider (failed) "st = error" | (io) "st = data_needed \<or> st = data_available"
    by (cases st) auto
  then show ?thesis
  proof cases
    case failed
    have "fuel1 \<noteq> 0"
    proof
      assume "fuel1 = 0"
      with run step failed f1 show False
        by (auto simp: async_handshake_op_def async_handshake_start_def async_handshake_call_def
              async_handshake_loop_def async_handshake_finish_def is_continuation_def)
    qed
    then obtain fuel2 where f2: "fuel1 = Suc fuel2" by (cases fuel1) auto
    from run step failed have "Handshake_step done \<notin> set (concat entries)"
      unfolding f1 f2
      by (auto simp: async_handshake_op_def async_handshake_start_def async_handshake_call_def
            async_handshake_loop_def async_handshake_finish_def is_continuation_def)
    with reached show ?thesis by simp
  next
    case io
    define b1 where "b1 = \<lparr>coro = (if st = data_needed then Coro_yield_read else Coro_yield_write),
                           entry_count = 1\<rparr>"
    define cs where "cs = [Handshake_step st,
       if st = data_needed then Next_layer_async_read_some (in_buffer hs w1)
       else Net_async_write (out_buffer hs w1)]"
    have call: "async_handshake_call hs 0 0 async_handshake_start (handshake_init hs type w)
                  = Some (b1, w1, cs)"
      using step io
      by (auto simp: async_handshake_start_def async_handshake_call_def
            async_handshake_loop_def b1_def cs_def)
    obtain ec1 n w2 where res:
      "(if st = data_needed then next_layer_async_read_some nl (in_buffer hs w1) w1
        else net_async_write nl (out_buffer hs w1) w1) = (ec1, n, w2)"
      by (cases "if st = data_needed then next_layer_async_read_some nl (in_buffer hs w1) w1
        else net_async_write nl (out_buffer hs w1) w1")
    from run call res io obtain entries0 where
      rec: "async_handshake_run fuel1 nl hs ec1 n b1 w2 = Some (a', w', entries0)"
      and en: "entries = cs # entries0"
      unfolding f1 by (auto simp: async_handshake_op_def cs_def split: if_splits)
    have b: "1 \<le> entry_count b1" "coro b1 = Coro_yield_read \<or> coro b1 = Coro_yield_write"
      by (simp_all add: b1_def)
    from continuation_run[OF rec b] have ne: "entries0 \<noteq> []" by simp
    from reached en io have "Handshake_step done \<in> set (concat entries0)"
      by (auto simp: cs_def)
    from continuation_run_done[OF D rec b this] en ne show ?thesis by simp
  qed
qed

lemma spec_handshake_done:
  "handshake_step (spec_sspi_handshake p) d = (done, d') \<Longrightarrow>
     handshake_last_error (spec_sspi_handshake p) d' = 0
     \<and> handshake_last_error (spec_sspi_handshake p) (manual_auth (spec_sspi_handshake p) d') = 0"
  by (auto simp: spec_sspi_handshake_def spec_handshake_step_def Let_def
      split: if_splits prod.splits handshake_result.splits state.splits)

lemma spec_handshake_first_step:
  "fst (handshake_step (spec_sspi_handshake p)
          (handshake_init (spec_sspi_handshake p) type d)) \<noteq> done"
  by (auto simp: spec_handshake_defs Let_def split: prod.splits)


text \<open>
  C8. With the handshake driver of the specification, a step that returns \<^verbatim>\<open>done\<close>
  leaves \<^verbatim>\<open>last_error()\<close> at the no-error value, before and after \<^verbatim>\<open>manual_auth()\<close>,
  and the first step after the initial call never returns \<^verbatim>\<open>done\<close>. So the assertion
  \<^verbatim>\<open>!handshake_.last_error()\<close> of the asynchronous operation never fails: every
  pass of its loop has a result, and so has every entry whose counter can still be
  incremented. The blocking \<^verbatim>\<open>handshake(type, ec)\<close> returns from an iteration that
  finds \<^verbatim>\<open>done\<close>, and a call that ends on \<^verbatim>\<open>done\<close> reports success, whatever \<^verbatim>\<open>ec\<close>
  held on entry. The asynchronous operation, resumed after a read or a write and
  finding \<^verbatim>\<open>done\<close>, calls \<^verbatim>\<open>manual_auth()\<close> and completes the caller with the
  no-error value in that entry, and every run in which the driver returned \<^verbatim>\<open>done\<close>
  ends by completing the caller with the no-error value.
\<close>

theorem handshake_done_no_error:
  fixes p :: "'c provider"
    and nl :: "(('c, 'z) handshake_driver_scheme) next_layer"
  shows "(handshake_step (spec_sspi_handshake p) d = (done, d') \<longrightarrow>
            handshake_last_error (spec_sspi_handshake p) d' = 0
            \<and> handshake_last_error (spec_sspi_handshake p)
                (manual_auth (spec_sspi_handshake p) d') = 0)
       \<and> fst (handshake_step (spec_sspi_handshake p)
                (handshake_init (spec_sspi_handshake p) type d0)) \<noteq> done
       \<and> async_handshake_loop (spec_sspi_handshake p) ec len b v cs \<noteq> None
       \<and> (entry_count b \<noteq> 2147483647 \<longrightarrow>
            async_handshake_call (spec_sspi_handshake p) ec len b v \<noteq> None)
       \<and> (handshake_step (spec_sspi_handshake p) d = (done, d') \<longrightarrow>
            handshake_loop (Suc fuel) nl (spec_sspi_handshake p) 0 d
              = Some (0, d', [Handshake_step done]))
       \<and> (handshake fuel' nl (spec_sspi_handshake p) type ec0 d0 = Some (ec', d1, calls)
            \<and> last calls = Handshake_step done \<longrightarrow>
            ec' = 0 \<and> handshake_last_error (spec_sspi_handshake p) d1 = 0)
       \<and> ((coro a = Coro_yield_read \<or> coro a = Coro_yield_write)
            \<and> 1 \<le> entry_count a \<and> entry_count a < 2147483647
            \<and> handshake_step (spec_sspi_handshake p)
                (if coro a = Coro_yield_read
                 then handshake_size_read (spec_sspi_handshake p) len v
                 else handshake_size_written (spec_sspi_handshake p) len v) = (done, v1) \<longrightarrow>
            async_handshake_run (Suc fuel) nl (spec_sspi_handshake p) 0 len a v
              = Some (a\<lparr>entry_count := entry_count a + 1, coro := Coro_complete\<rparr>,
                      manual_auth (spec_sspi_handshake p) v1,
                      [[if coro a = Coro_yield_read then Handshake_size_read len
                        else Handshake_size_written len,
                        Handshake_step done, Handshake_manual_auth, Complete 0]]))
       \<and> (async_handshake_op fuel' nl (spec_sspi_handshake p) type d0 = Some (a', d2, entries)
            \<and> Handshake_step done \<in> set (concat entries) \<longrightarrow>
            last (last entries) = Complete 0)"
proof -
  let ?H = "spec_sspi_handshake p :: (('c, 'z) handshake_driver_scheme) sspi_handshake"
  have latch: "handshake_last_error ?H u' = 0
               \<and> handshake_last_error ?H (manual_auth ?H u') = 0"
    if "handshake_step ?H u = (done, u')" for u u'
    using that by (rule spec_handshake_done)
  have first: "fst (handshake_step ?H (handshake_init ?H type d0)) \<noteq> done"
    by (rule spec_handshake_first_step)
  have pass: "async_handshake_loop ?H e' len' b' v' cs' \<noteq> None" for e' len' b' v' cs'
  proof -
    obtain st u where st: "handshake_step ?H v' = (st, u)" by (cases "handshake_step ?H v'")
    show ?thesis
    proof (cases "st = done")
      case True
      with st latch have "handshake_last_error ?H u = 0" by blast
      with st True show ?thesis by (simp add: async_handshake_loop_def)
    next
      case False
      with st show ?thesis by (cases st) (simp_all add: async_handshake_loop_def)
    qed
  qed
  have entry: "entry_count b \<noteq> 2147483647 \<longrightarrow> async_handshake_call ?H ec len b v \<noteq> None"
    using pass by (cases "coro b") (simp_all add: async_handshake_call_def Let_def)
  have iter: "handshake_step ?H d = (done, d') \<longrightarrow>
            handshake_loop (Suc fuel) nl ?H 0 d = Some (0, d', [Handshake_step done])"
    by simp
  have whole: "handshake fuel' nl ?H type ec0 d0 = Some (ec', d1, calls)
            \<and> last calls = Handshake_step done \<longrightarrow>
            ec' = 0 \<and> handshake_last_error ?H d1 = 0"
  proof
    assume h: "handshake fuel' nl ?H type ec0 d0 = Some (ec', d1, calls)
               \<and> last calls = Handshake_step done"
    then have run: "handshake fuel' nl ?H type ec0 d0 = Some (ec', d1, calls)"
      and l: "last calls = Handshake_step done" by simp_all
    from handshake_result[OF run] l first have e: "ec' = 0" by simp
    from run obtain calls0 where
      loop: "handshake_loop fuel' nl ?H ec0 (handshake_init ?H type d0) = Some (ec', d1, calls0)"
      and c: "calls = Handshake_init type # calls0"
      by (auto simp: handshake_def)
    from handshake_loop_head[OF loop] have "calls0 \<noteq> []" by simp
    with c l have "last calls0 = Handshake_step done" by simp
    from handshake_loop_last_step[OF loop this] obtain u where
      "handshake_step ?H u = (done, d1)" by blast
    with latch have "handshake_last_error ?H d1 = 0" by blast
    with e show "ec' = 0 \<and> handshake_last_error ?H d1 = 0" by simp
  qed
  have resumed: "(coro a = Coro_yield_read \<or> coro a = Coro_yield_write)
            \<and> 1 \<le> entry_count a \<and> entry_count a < 2147483647
            \<and> handshake_step ?H
                (if coro a = Coro_yield_read then handshake_size_read ?H len v
                 else handshake_size_written ?H len v) = (done, v1) \<longrightarrow>
            async_handshake_run (Suc fuel) nl ?H 0 len a v
              = Some (a\<lparr>entry_count := entry_count a + 1, coro := Coro_complete\<rparr>,
                      manual_auth ?H v1,
                      [[if coro a = Coro_yield_read then Handshake_size_read len
                        else Handshake_size_written len,
                        Handshake_step done, Handshake_manual_auth, Complete 0]])"
  proof
    assume h: "(coro a = Coro_yield_read \<or> coro a = Coro_yield_write)
            \<and> 1 \<le> entry_count a \<and> entry_count a < 2147483647
            \<and> handshake_step ?H
                (if coro a = Coro_yield_read then handshake_size_read ?H len v
                 else handshake_size_written ?H len v) = (done, v1)"
    then have st: "handshake_step ?H
                (if coro a = Coro_yield_read then handshake_size_read ?H len v
                 else handshake_size_written ?H len v) = (done, v1)" by simp
    from latch[OF st] have z: "handshake_last_error ?H v1 = 0"
      "handshake_last_error ?H (manual_auth ?H v1) = 0" by simp_all
    from h st z show "async_handshake_run (Suc fuel) nl ?H 0 len a v
              = Some (a\<lparr>entry_count := entry_count a + 1, coro := Coro_complete\<rparr>,
                      manual_auth ?H v1,
                      [[if coro a = Coro_yield_read then Handshake_size_read len
                        else Handshake_size_written len,
                        Handshake_step done, Handshake_manual_auth, Complete 0]])"
      by (auto simp: async_handshake_call_def async_handshake_loop_def
            async_handshake_finish_def is_continuation_def)
  qed
  have op: "async_handshake_op fuel' nl ?H type d0 = Some (a', d2, entries)
            \<and> Handshake_step done \<in> set (concat entries) \<longrightarrow>
            last (last entries) = Complete 0"
  proof
    assume h: "async_handshake_op fuel' nl ?H type d0 = Some (a', d2, entries)
               \<and> Handshake_step done \<in> set (concat entries)"
    have D: "handshake_last_error ?H (manual_auth ?H u') = 0"
      if "handshake_step ?H u = (done, u')" for u u'
      using latch[OF that] by simp
    from h have run: "async_handshake_op fuel' nl ?H type d0 = Some (a', d2, entries)"
      and reached: "Handshake_step done \<in> set (concat entries)" by simp_all
    show "last (last entries) = Complete 0"
      by (rule async_handshake_op_done[where hs = ?H, OF _ first run reached]) (rule D)
  qed
  from latch[of d d'] first pass[of ec len b v cs] entry iter whole resumed op show ?thesis
    by (intro conjI) blast+
qed


theorem handshake_done_no_error_witness:
  "handshake_step (spec_sspi_handshake toy_provider)
       (handshake_init (spec_sspi_handshake toy_provider) client fresh_handshake_driver)
     = (data_available,
        \<lparr>hs_role = client, hs_ctx = 1, hs_first_call = False, hs_done = False,
         hs_latched = 0, hs_input = [], hs_tail = [], hs_output = [1, 2, 3]\<rparr>)
   \<and> handshake_step (spec_sspi_handshake toy_provider)
        \<lparr>hs_role = client, hs_ctx = 1, hs_first_call = False, hs_done = False,
         hs_latched = 0, hs_input = [7, 7], hs_tail = [7, 7], hs_output = []\<rparr>
     = (done,
        \<lparr>hs_role = client, hs_ctx = 2, hs_first_call = False, hs_done = True,
         hs_latched = 0, hs_input = [], hs_tail = [7, 7], hs_output = []\<rparr>)
   \<and> handshake_last_error (spec_sspi_handshake toy_provider)
        \<lparr>hs_role = client, hs_ctx = 2, hs_first_call = False, hs_done = True,
         hs_latched = 0, hs_input = [], hs_tail = [7, 7], hs_output = []\<rparr> = 0
   \<and> handshake_last_error (spec_sspi_handshake toy_provider)
        (manual_auth (spec_sspi_handshake toy_provider)
           \<lparr>hs_role = client, hs_ctx = 2, hs_first_call = False, hs_done = True,
            hs_latched = 0, hs_input = [], hs_tail = [7, 7], hs_output = []\<rparr>) = 0
   \<and> handshake_loop (Suc 0) wire_next_layer (spec_sspi_handshake toy_provider) 0
        \<lparr>hs_role = client, hs_ctx = 1, hs_first_call = False, hs_done = False,
         hs_latched = 0, hs_input = [7, 7], hs_tail = [7, 7], hs_output = []\<rparr>
     = Some (0,
             \<lparr>hs_role = client, hs_ctx = 2, hs_first_call = False, hs_done = True,
              hs_latched = 0, hs_input = [], hs_tail = [7, 7], hs_output = []\<rparr>,
             [Handshake_step done])
   \<and> handshake (Suc (Suc (Suc 0))) wire_next_layer (spec_sspi_handshake toy_provider)
        client 5 fresh_handshake_driver
     = Some (0,
             \<lparr>hs_role = client, hs_ctx = 2, hs_first_call = False, hs_done = True,
              hs_latched = 0, hs_input = [], hs_tail = [7, 7], hs_output = []\<rparr>,
             [Handshake_init client,
              Handshake_step data_available,
              Net_write [\<lparr>buffer_data = 0, buffer_len = 3\<rparr>] 3 0,
              Handshake_size_written 3,
              Handshake_step data_needed,
              Next_layer_read_some [\<lparr>buffer_data = 0, buffer_len = 16384\<rparr>] 2 0,
              Handshake_size_read 2,
              Handshake_step done])
   \<and> async_handshake_call (spec_sspi_handshake toy_provider) 0 0 async_handshake_start
        (handshake_init (spec_sspi_handshake toy_provider) client fresh_handshake_driver)
     \<noteq> None
   \<and> async_handshake_run (Suc 0) wire_next_layer (spec_sspi_handshake toy_provider) 0 2
        \<lparr>coro = Coro_yield_read, entry_count = 2\<rparr>
        \<lparr>hs_role = client, hs_ctx = 1, hs_first_call = False, hs_done = False,
         hs_latched = 0, hs_input = [], hs_tail = [7, 7], hs_output = []\<rparr>
     = Some (\<lparr>coro = Coro_complete, entry_count = 3\<rparr>,
             \<lparr>hs_role = client, hs_ctx = 2, hs_first_call = False, hs_done = True,
              hs_latched = 0, hs_input = [], hs_tail = [7, 7], hs_output = []\<rparr>,
             [[Handshake_size_read 2, Handshake_step done, Handshake_manual_auth,
               Complete 0]])
   \<and> async_handshake_op (Suc (Suc (Suc 0))) wire_next_layer
        (spec_sspi_handshake toy_provider) client fresh_handshake_driver
     = Some (\<lparr>coro = Coro_complete, entry_count = 3\<rparr>,
             \<lparr>hs_role = client, hs_ctx = 2, hs_first_call = False, hs_done = True,
              hs_latched = 0, hs_input = [], hs_tail = [7, 7], hs_output = []\<rparr>,
             [[Handshake_step data_available,
               Net_async_write [\<lparr>buffer_data = 0, buffer_len = 3\<rparr>]],
              [Handshake_size_written 3, Handshake_step data_needed,
               Next_layer_async_read_some [\<lparr>buffer_data = 0, buffer_len = 16384\<rparr>]],
              [Handshake_size_read 2, Handshake_step done, Handshake_manual_auth,
               Complete 0]])
   \<and> last (last [[Handshake_step data_available,
                    Net_async_write [\<lparr>buffer_data = 0, buffer_len = 3\<rparr>]],
                   [Handshake_size_written 3, Handshake_step data_needed,
                    Next_layer_async_read_some [\<lparr>buffer_data = 0, buffer_len = 16384\<rparr>]],
                   [Handshake_size_read 2, Handshake_step done, Handshake_manual_auth,
                    Complete 0]]) = Complete 0"
proof -
  let ?H = "spec_sspi_handshake toy_provider :: (nat handshake_driver) sspi_handshake"
  let ?A = "\<lparr>hs_role = client, hs_ctx = 1, hs_first_call = False, hs_done = False,
             hs_latched = 0, hs_input = [], hs_tail = [], hs_output = [1, 2, 3]\<rparr>
            :: nat handshake_driver"
  let ?C = "\<lparr>hs_role = client, hs_ctx = 1, hs_first_call = False, hs_done = False,
             hs_latched = 0, hs_input = [], hs_tail = [7, 7], hs_output = []\<rparr>
            :: nat handshake_driver"
  let ?D = "\<lparr>hs_role = client, hs_ctx = 1, hs_first_call = False, hs_done = False,
             hs_latched = 0, hs_input = [7, 7], hs_tail = [7, 7], hs_output = []\<rparr>
            :: nat handshake_driver"
  let ?F = "\<lparr>hs_role = client, hs_ctx = 2, hs_first_call = False, hs_done = True,
             hs_latched = 0, hs_input = [], hs_tail = [7, 7], hs_output = []\<rparr>
            :: nat handshake_driver"
  let ?calls = "[Handshake_init client,
              Handshake_step data_available,
              Net_write [\<lparr>buffer_data = 0, buffer_len = 3\<rparr>] 3 0,
              Handshake_size_written 3,
              Handshake_step data_needed,
              Next_layer_read_some [\<lparr>buffer_data = 0, buffer_len = 16384\<rparr>] 2 0,
              Handshake_size_read 2,
              Handshake_step done]"
  let ?entries = "[[Handshake_step data_available,
               Net_async_write [\<lparr>buffer_data = 0, buffer_len = 3\<rparr>]],
              [Handshake_size_written 3, Handshake_step data_needed,
               Next_layer_async_read_some [\<lparr>buffer_data = 0, buffer_len = 16384\<rparr>]],
              [Handshake_size_read 2, Handshake_step done, Handshake_manual_auth,
               Complete 0]]"
  have s1: "handshake_step ?H (handshake_init ?H client fresh_handshake_driver)
              = (data_available, ?A)"
    by (simp add: spec_handshake_defs toy_provider_def fresh_handshake_driver_def)
  have s3: "handshake_step ?H ?D = (done, ?F)"
    by (simp add: spec_handshake_defs toy_provider_def)
  have commit: "handshake_size_read ?H 2 ?C = ?D"
    by (simp add: spec_handshake_defs)
  have auth: "manual_auth ?H ?F = ?F"
    by (simp add: spec_handshake_defs toy_provider_def)
  have e2: "handshake_last_error ?H (manual_auth ?H ?F) = 0"
    using handshake_done_no_error[where p = toy_provider and d = ?D and d' = ?F] s3
    by blast
  have third: "handshake_loop (Suc 0) wire_next_layer ?H 0 ?D
                 = Some (0, ?F, [Handshake_step done])"
    using handshake_done_no_error[where p = toy_provider and d = ?D and d' = ?F
            and fuel = 0 and nl = wire_next_layer] s3
    by blast
  have whole: "handshake (Suc (Suc (Suc 0))) wire_next_layer ?H client 5 fresh_handshake_driver
                 = Some (0, ?F, ?calls)"
    by (simp add: handshake_def spec_handshake_defs toy_provider_def
          fresh_handshake_driver_def wire_next_layer_def buffer_size_def)
  have ended: "last ?calls = Handshake_step done" by simp
  have e1: "handshake_last_error ?H ?F = 0"
    using handshake_done_no_error[where p = toy_provider and fuel' = "Suc (Suc (Suc 0))"
            and nl = wire_next_layer and type = client and ?ec0.0 = 5
            and ?d0.0 = fresh_handshake_driver and ec' = 0 and ?d1.0 = ?F
            and calls = ?calls] whole ended
    by blast
  have started: "async_handshake_call ?H 0 0 async_handshake_start
                   (handshake_init ?H client fresh_handshake_driver) \<noteq> None"
    using handshake_done_no_error[where p = toy_provider and ec = 0 and len = 0
            and b = async_handshake_start
            and v = "handshake_init ?H client fresh_handshake_driver"]
    by (simp add: async_handshake_start_def)
  have resumed: "async_handshake_run (Suc 0) wire_next_layer ?H 0 2
                   \<lparr>coro = Coro_yield_read, entry_count = 2\<rparr> ?C
                 = Some (\<lparr>coro = Coro_complete, entry_count = 3\<rparr>, ?F,
                         [[Handshake_size_read 2, Handshake_step done, Handshake_manual_auth,
                           Complete 0]])"
    using handshake_done_no_error[where p = toy_provider and fuel = 0
            and nl = wire_next_layer and len = 2
            and a = "\<lparr>coro = Coro_yield_read, entry_count = 2\<rparr>"
            and v = ?C and ?v1.0 = ?F] s3 commit auth
    by simp
  have op: "async_handshake_op (Suc (Suc (Suc 0))) wire_next_layer ?H client
              fresh_handshake_driver
            = Some (\<lparr>coro = Coro_complete, entry_count = 3\<rparr>, ?F, ?entries)"
    by (simp add: async_defs spec_handshake_defs toy_provider_def
          fresh_handshake_driver_def wire_next_layer_def buffer_size_def)
  have reached: "Handshake_step done \<in> set (concat ?entries)" by simp
  have completes: "last (last ?entries) = Complete 0"
    using handshake_done_no_error[where p = toy_provider and fuel' = "Suc (Suc (Suc 0))"
            and nl = wire_next_layer and type = client
            and ?d0.0 = fresh_handshake_driver
            and a' = "\<lparr>coro = Coro_complete, entry_count = 3\<rparr>" and ?d2.0 = ?F
            and entries = ?entries] op reached
    by blast
  from s1 s3 e1 e2 third whole started resumed op completes show ?thesis by blast
qed

end
